theory Spec2Isabelle
  imports
    Complex_Main
    "HOL-Library.Char_ord"
    "HOL-Library.List_Lexorder"
    "HOL-Library.Product_Lexorder"
    "HOL-Library.Sublist"
begin

section \<open>Data model\<close>

text \<open>
  The expense ledger of the club-management backend: the Expense schema
  (models/Expense.model.js), the expense controller (createExpense, updateExpense,
  approveExpense, rejectExpense, reimburseExpense, deleteExpense, addManualExpense), the
  year closing of the archive controller (closeYear) and the aggregation pipelines of the
  report controller (getFinancialSummary, getLeaderboard).

  Conventions of the embedding.
  \<^item> An ObjectId is the string of its hexadecimal form. A JavaScript Number is the rational
    value of a double; an addition of two Numbers rounds the exact sum to the nearest double
    (\<open>dadd\<close> below). Infinity, NaN results and subnormal numbers are not part of the model.
  \<^item> A Date is a record of its calendar parts; \<open>new Date()\<close> is the argument \<open>now\<close> of a handler.
  \<^item> A collection is the list of its documents in the order the engine scans them. A handler
    takes the collections it reads and returns its HTTP reply together with the collections
    it writes.
  \<^item> The expense record holds the paths declared by the schema; the \<open>createdAt\<close> and
    \<open>updatedAt\<close> stamps that Mongoose maintains by itself are not part of the record.
  \<^item> \<open>populate\<close>, e-mail, audit log and socket notifications do not write the ledger; they
    are not part of the embedding (sendEmail and createAuditLog catch their own errors).
\<close>

type_synonym objectid = string

record jsdate =
  fullYear :: int
  monthIndex :: nat
  dayOfMonth :: nat
  timeOfDay :: nat

record expense =
  oid :: objectid
  member_ref :: objectid
  event_ref :: objectid
  category :: string
  amount :: rat
  date :: jsdate
  paymentMode :: string
  description :: "string option"
  notes_field :: "string option"
  billUrl :: "string option"
  billPublicId :: "string option"
  billOriginalName :: "string option"
  status :: string
  approvedBy :: "objectid option"
  approvedAt :: "jsdate option"
  rejectedBy :: "objectid option"
  rejectedAt :: "jsdate option"
  rejectionReason :: "string option"
  reimbursedBy :: "objectid option"
  reimbursedAt :: "jsdate option"
  reimbursementReference :: "string option"
  rotaractYear :: string
  isArchived :: bool

text \<open>The JSON body of a reply: \<open>res.status(c).json({ success, message, data })\<close>.\<close>

datatype 'a reply = Reply (http_status: nat) (success: bool) (message: string) (data: "'a option")

definition categories :: "string list" where
  "categories = [''donation'', ''personal_contribution'', ''travel_expense'', ''accommodation'',
     ''event_material'', ''food_refreshments'', ''miscellaneous'']"

definition paymentModes :: "string list" where
  "paymentModes = [''upi'', ''cash'', ''bank_transfer'', ''cheque'']"

definition statuses :: "string list" where
  "statuses = [''pending'', ''approved'', ''rejected'', ''reimbursed'', ''paid'']"

subsection \<open>Object ids and the store\<close>

definition isHexDigit :: "char \<Rightarrow> bool" where
  "isHexDigit c = (c \<in> set ''0123456789abcdefABCDEF'')"

text \<open>\<open>mongoose.Types.ObjectId.isValid\<close> and the cast of a route parameter to an ObjectId,
  on strings: 24 hexadecimal digits.\<close>

definition isValidObjectId :: "string \<Rightarrow> bool" where
  "isValidObjectId s = (length s = 24 \<and> list_all isHexDigit s)"

definition findById :: "objectid \<Rightarrow> expense list \<Rightarrow> expense option" where
  "findById i db = find (\<lambda>e. oid e = i) db"

text \<open>\<open>updateOne({ _id: i }, { $set: ... })\<close>: the first document with that id is patched.\<close>

fun updateById :: "objectid \<Rightarrow> (expense \<Rightarrow> expense) \<Rightarrow> expense list \<Rightarrow> expense list" where
  "updateById i f [] = []"
| "updateById i f (e # es) = (if oid e = i then f e # es else e # updateById i f es)"

text \<open>\<open>doc.save()\<close> of a loaded document writes its modified paths to the stored document
  with the same id, and throws DocumentNotFoundError when that document is gone.\<close>

definition save :: "objectid \<Rightarrow> (expense \<Rightarrow> expense) \<Rightarrow> expense list \<Rightarrow> expense list option" where
  "save i f db = (if findById i db = None then None else Some (updateById i f db))"

section \<open>The approval transitions\<close>

text \<open>
  Each handler awaits \<open>Expense.findById\<close>, then checks the status of the document it loaded,
  assigns the new fields and awaits \<open>expense.save()\<close>. The part after the first await is the
  \<open>_resume\<close> function: it takes the document that was loaded and the collection as it is
  when the handler continues. The handler run without interruption resumes on the collection
  it read.
\<close>

definition approve_patch :: "objectid \<Rightarrow> jsdate \<Rightarrow> expense \<Rightarrow> expense" where
  "approve_patch user now e = e\<lparr>status := ''approved'', approvedBy := Some user, approvedAt := Some now\<rparr>"

definition approve_resume ::
  "objectid \<Rightarrow> jsdate \<Rightarrow> expense option \<Rightarrow> expense list \<Rightarrow> expense reply \<times> expense list" where
  "approve_resume user now loaded db =
     (case loaded of
        None \<Rightarrow> (Reply 404 False ''Expense not found'' None, db)
      | Some e \<Rightarrow>
          if status e \<noteq> ''pending''
          then (Reply 400 False (''Cannot approve expense with status: '' @ status e) None, db)
          else (case save (oid e) (approve_patch user now) db of
                  None \<Rightarrow> (Reply 500 False ''Failed to approve expense'' None, db)
                | Some db' \<Rightarrow>
                    (Reply 200 True ''Expense approved successfully'' (Some (approve_patch user now e)), db')))"

definition approveExpense ::
  "objectid \<Rightarrow> jsdate \<Rightarrow> string \<Rightarrow> expense list \<Rightarrow> expense reply \<times> expense list" where
  "approveExpense user now i db =
     (if \<not> isValidObjectId i then (Reply 500 False ''Failed to approve expense'' None, db)
      else approve_resume user now (findById i db) db)"

definition reject_patch :: "objectid \<Rightarrow> jsdate \<Rightarrow> string \<Rightarrow> expense \<Rightarrow> expense" where
  "reject_patch user now reason e =
     e\<lparr>status := ''rejected'', rejectedBy := Some user, rejectedAt := Some now,
       rejectionReason := Some reason\<rparr>"

definition reject_resume ::
  "objectid \<Rightarrow> jsdate \<Rightarrow> string \<Rightarrow> expense option \<Rightarrow> expense list \<Rightarrow> expense reply \<times> expense list" where
  "reject_resume user now reason loaded db =
     (case loaded of
        None \<Rightarrow> (Reply 404 False ''Expense not found'' None, db)
      | Some e \<Rightarrow>
          if status e \<noteq> ''pending''
          then (Reply 400 False (''Cannot reject expense with status: '' @ status e) None, db)
          else (case save (oid e) (reject_patch user now reason) db of
                  None \<Rightarrow> (Reply 500 False ''Failed to reject expense'' None, db)
                | Some db' \<Rightarrow>
                    (Reply 200 True ''Expense rejected'' (Some (reject_patch user now reason e)), db')))"

text \<open>\<open>reason\<close> is \<open>req.body.reason\<close>: \<open>None\<close> when the body has no such key. \<open>!reason\<close> holds
  for a missing and for an empty string.\<close>

definition rejectExpense ::
  "objectid \<Rightarrow> jsdate \<Rightarrow> string option \<Rightarrow> string \<Rightarrow> expense list \<Rightarrow> expense reply \<times> expense list" where
  "rejectExpense user now reason i db =
     (case reason of
        None \<Rightarrow> (Reply 400 False ''Rejection reason is required'' None, db)
      | Some r \<Rightarrow>
          if r = [] then (Reply 400 False ''Rejection reason is required'' None, db)
          else if \<not> isValidObjectId i then (Reply 500 False ''Failed to reject expense'' None, db)
          else reject_resume user now r (findById i db) db)"

definition reimburse_patch :: "objectid \<Rightarrow> jsdate \<Rightarrow> string option \<Rightarrow> expense \<Rightarrow> expense" where
  "reimburse_patch user now reference e =
     e\<lparr>status := ''reimbursed'', reimbursedBy := Some user, reimbursedAt := Some now,
       reimbursementReference := reference\<rparr>"

definition reimburse_resume ::
  "objectid \<Rightarrow> jsdate \<Rightarrow> string option \<Rightarrow> expense option \<Rightarrow> expense list
     \<Rightarrow> expense reply \<times> expense list" where
  "reimburse_resume user now reference loaded db =
     (case loaded of
        None \<Rightarrow> (Reply 404 False ''Expense not found'' None, db)
      | Some e \<Rightarrow>
          if status e \<noteq> ''approved''
          then (Reply 400 False ''Only approved expenses can be marked as reimbursed'' None, db)
          else (case save (oid e) (reimburse_patch user now reference) db of
                  None \<Rightarrow> (Reply 500 False ''Failed to reimburse expense'' None, db)
                | Some db' \<Rightarrow>
                    (Reply 200 True ''Expense marked as reimbursed''
                       (Some (reimburse_patch user now reference e)), db')))"

definition reimburseExpense ::
  "objectid \<Rightarrow> jsdate \<Rightarrow> string option \<Rightarrow> string \<Rightarrow> expense list \<Rightarrow> expense reply \<times> expense list" where
  "reimburseExpense user now reference i db =
     (if \<not> isValidObjectId i then (Reply 500 False ''Failed to reimburse expense'' None, db)
      else reimburse_resume user now reference (findById i db) db)"

text \<open>The three transition requests of the expense routes, as one command type.\<close>

datatype command = Approve | Reject "string option" | Reimburse "string option"

definition transition ::
  "command \<Rightarrow> objectid \<Rightarrow> jsdate \<Rightarrow> string \<Rightarrow> expense list \<Rightarrow> expense reply \<times> expense list" where
  "transition c user now i db =
     (case c of
        Approve \<Rightarrow> approveExpense user now i db
      | Reject reason \<Rightarrow> rejectExpense user now reason i db
      | Reimburse reference \<Rightarrow> reimburseExpense user now reference i db)"

section \<open>Creating, updating and deleting expenses\<close>

subsection \<open>The fiscal year label (utils/helpers.js)\<close>

fun digits10 :: "nat \<Rightarrow> string" where
  "digits10 n =
     (if n < 10 then [''0123456789'' ! n]
      else digits10 (n div 10) @ [''0123456789'' ! (n mod 10)])"

declare digits10.simps [simp del]

text \<open>The template literal \<open>`${year}`\<close> of an integer.\<close>

definition toString :: "int \<Rightarrow> string" where
  "toString k = (if k < 0 then CHR ''-'' # digits10 (nat (- k)) else digits10 (nat k))"

definition getFinancialYear :: "jsdate \<Rightarrow> string" where
  "getFinancialYear d =
     (let year = fullYear d; month = monthIndex d
      in if month \<ge> 6 then toString year @ ''-'' @ toString (year + 1)
         else toString (year - 1) @ ''-'' @ toString year)"

subsection \<open>Requests\<close>

text \<open>
  The documents of the Event and User collections, with the paths the handlers read.
  The body of a creation request: each key is \<open>None\<close> when the request omits it. \<open>b_amount\<close> is
  the number the amount denotes, \<open>None\<close> when it denotes none (\<open>parseFloat\<close> gives NaN);
  \<open>b_date\<close> is the date the date string denotes. The uploaded bill is \<open>req.file\<close>.
\<close>

record event_doc =
  ev_id :: objectid
  ev_name :: string

record user_doc =
  uid :: objectid
  firstName :: string
  lastName :: string
  email :: string
  memberId :: string
  photo :: "string option"
  role :: string

record expense_body =
  b_member :: "string option"
  b_event :: "string option"
  b_category :: "string option"
  b_amount :: "rat option"
  b_date :: "jsdate option"
  b_paymentMode :: "string option"
  b_description :: "string option"
  b_notes :: "string option"
  b_status :: "string option"

record upload =
  filename :: string
  originalname :: string

text \<open>JavaScript's \<open>!s\<close> on an optional string, and \<open>s || d\<close>.\<close>

definition falsy :: "string option \<Rightarrow> bool" where
  "falsy s = (s = None \<or> s = Some [])"

definition or_default :: "string option \<Rightarrow> string \<Rightarrow> string" where
  "or_default s d = (case s of None \<Rightarrow> d | Some v \<Rightarrow> if v = [] then d else v)"

definition file_billUrl :: "upload option \<Rightarrow> string option" where
  "file_billUrl file = (case file of None \<Rightarrow> None | Some f \<Rightarrow> Some (''/uploads/bills/'' @ filename f))"

definition file_originalName :: "upload option \<Rightarrow> string option" where
  "file_originalName file = (case file of None \<Rightarrow> None | Some f \<Rightarrow> Some (originalname f))"

subsection \<open>The schema: defaults and validators\<close>

definition maxlength :: "nat \<Rightarrow> string option \<Rightarrow> bool" where
  "maxlength n s = (case s of None \<Rightarrow> True | Some v \<Rightarrow> length v \<le> n)"

text \<open>The validators of the Expense schema on a complete document: the casts of the two
  references, \<open>required\<close>, \<open>enum\<close>, \<open>min\<close> and \<open>maxlength\<close>.\<close>

definition schema_valid :: "expense \<Rightarrow> bool" where
  "schema_valid e =
     (isValidObjectId (member_ref e) \<and> isValidObjectId (event_ref e)
      \<and> category e \<in> set categories
      \<and> 1 \<le> amount e
      \<and> paymentMode e \<in> set paymentModes
      \<and> maxlength 500 (description e)
      \<and> maxlength 1000 (notes_field e)
      \<and> status e \<in> set statuses
      \<and> rotaractYear e \<noteq> [])"

text \<open>The object handed to \<open>Expense.create\<close>. A status that is not given takes the schema's
  default \<open>pending\<close>; \<open>isArchived\<close> defaults to false; the paths of rejection and
  reimbursement stay unset.\<close>

record expense_fields =
  f_member :: objectid
  f_event :: objectid
  f_category :: string
  f_amount :: rat
  f_date :: jsdate
  f_paymentMode :: string
  f_description :: "string option"
  f_notes :: "string option"
  f_status :: "string option"
  f_billUrl :: "string option"
  f_billOriginalName :: "string option"
  f_approvedBy :: "objectid option"
  f_approvedAt :: "jsdate option"
  f_rotaractYear :: string

definition new_document :: "objectid \<Rightarrow> expense_fields \<Rightarrow> expense" where
  "new_document newId f =
     \<lparr>oid = newId, member_ref = f_member f, event_ref = f_event f, category = f_category f,
      amount = f_amount f, date = f_date f, paymentMode = f_paymentMode f,
      description = f_description f, notes_field = f_notes f, billUrl = f_billUrl f,
      billPublicId = None, billOriginalName = f_billOriginalName f,
      status = (case f_status f of None \<Rightarrow> ''pending'' | Some s \<Rightarrow> s),
      approvedBy = f_approvedBy f, approvedAt = f_approvedAt f,
      rejectedBy = None, rejectedAt = None, rejectionReason = None,
      reimbursedBy = None, reimbursedAt = None, reimbursementReference = None,
      rotaractYear = f_rotaractYear f, isArchived = False\<rparr>"

text \<open>\<open>Expense.create\<close>: \<open>None\<close> is the ValidationError it throws; otherwise the inserted
  document and the collection with it.\<close>

definition Expense_create ::
  "objectid \<Rightarrow> expense_fields \<Rightarrow> expense list \<Rightarrow> (expense \<times> expense list) option" where
  "Expense_create newId f db =
     (let doc = new_document newId f
      in if schema_valid doc then Some (doc, db @ [doc]) else None)"

subsection \<open>createExpense, behind expenseValidation.create\<close>

definition is_ws :: "char \<Rightarrow> bool" where
  "is_ws c = (c \<in> set [CHR '' '', CHR 0x09, CHR 0x0A, CHR 0x0B, CHR 0x0C, CHR 0x0D])"

definition trim :: "string \<Rightarrow> string" where
  "trim s = rev (dropWhile is_ws (rev (dropWhile is_ws s)))"

definition expenseValidation_create :: "expense_body \<Rightarrow> bool" where
  "expenseValidation_create b =
     ((case b_event b of None \<Rightarrow> False | Some ev \<Rightarrow> ev \<noteq> [] \<and> isValidObjectId ev)
      \<and> (case b_category b of None \<Rightarrow> False | Some c \<Rightarrow> c \<noteq> [] \<and> c \<in> set categories)
      \<and> (case b_amount b of None \<Rightarrow> False | Some a \<Rightarrow> 1 \<le> a)
      \<and> b_date b \<noteq> None
      \<and> (case b_paymentMode b of None \<Rightarrow> False | Some p \<Rightarrow> p \<noteq> [] \<and> p \<in> set paymentModes)
      \<and> (case b_description b of None \<Rightarrow> True | Some d \<Rightarrow> length (trim d) \<le> 500))"

definition createExpense ::
  "objectid \<Rightarrow> jsdate \<Rightarrow> objectid \<Rightarrow> event_doc list \<Rightarrow> expense_body \<Rightarrow> upload option
     \<Rightarrow> expense list \<Rightarrow> expense reply \<times> expense list" where
  "createExpense user now newId events b file db =
     (if \<not> expenseValidation_create b then (Reply 400 False ''Validation failed'' None, db)
      else if find (\<lambda>ev. ev_id ev = the (b_event b)) events = None
      then (Reply 404 False ''Event not found'' None, db)
      else
        (case Expense_create newId
                \<lparr>f_member = user, f_event = the (b_event b), f_category = the (b_category b),
                 f_amount = the (b_amount b), f_date = the (b_date b),
                 f_paymentMode = the (b_paymentMode b),
                 f_description = map_option trim (b_description b), f_notes = b_notes b,
                 f_status = None, f_billUrl = file_billUrl file,
                 f_billOriginalName = file_originalName file,
                 f_approvedBy = None, f_approvedAt = None,
                 f_rotaractYear = getFinancialYear now\<rparr> db of
           None \<Rightarrow> (Reply 500 False ''Failed to submit expense'' None, db)
         | Some (doc, db') \<Rightarrow> (Reply 201 True ''Expense submitted successfully'' (Some doc), db')))"

subsection \<open>addManualExpense\<close>

definition addManualExpense ::
  "objectid \<Rightarrow> jsdate \<Rightarrow> objectid \<Rightarrow> user_doc list \<Rightarrow> event_doc list \<Rightarrow> expense_body
     \<Rightarrow> upload option \<Rightarrow> expense list \<Rightarrow> expense reply \<times> expense list" where
  "addManualExpense user now newId users events b file db =
     (let description = or_default (b_description b) [];
          notes = or_default (b_notes b) [];
          status = or_default (b_status b) ''approved''
      in
      if falsy (b_member b) \<or> falsy (b_event b) \<or> falsy (b_category b)
         \<or> (b_amount b = None \<or> b_amount b = Some 0) \<or> b_date b = None \<or> falsy (b_paymentMode b)
      then (Reply 400 False
              ''Missing required fields: member, event, category, amount, date, and paymentMode are required''
              None, db)
      else if \<not> isValidObjectId (the (b_member b))
      then (Reply 400 False ''Invalid member ID format'' None, db)
      else if \<not> isValidObjectId (the (b_event b))
      then (Reply 400 False ''Invalid event ID format'' None, db)
      else if find (\<lambda>u. uid u = the (b_member b)) users = None
      then (Reply 404 False ''Member not found'' None, db)
      else if find (\<lambda>ev. ev_id ev = the (b_event b)) events = None
      then (Reply 404 False ''Event not found'' None, db)
      else
        (case Expense_create newId
                \<lparr>f_member = the (b_member b), f_event = the (b_event b),
                 f_category = the (b_category b), f_amount = the (b_amount b),
                 f_date = the (b_date b), f_paymentMode = the (b_paymentMode b),
                 f_description = Some description, f_notes = Some notes,
                 f_status = Some status, f_billUrl = file_billUrl file,
                 f_billOriginalName = file_originalName file,
                 f_approvedBy = Some user, f_approvedAt = Some now,
                 f_rotaractYear = getFinancialYear now\<rparr> db of
           None \<Rightarrow> (Reply 500 False ''Failed to add manual expense'' None, db)
         | Some (doc, db') \<Rightarrow> (Reply 201 True ''Manual expense added successfully'' (Some doc), db')))"

subsection \<open>updateExpense, behind expenseValidation.update\<close>

text \<open>
  A value of a JSON or multipart body. A numeric string of a form field is the number it
  denotes, a date string the date it denotes; the other conversions between the kinds that
  Mongoose attempts are not modelled: a value of another kind than the path's is a cast
  error.
\<close>

datatype jsvalue = JStr string | JNum rat | JDate jsdate | JBool bool | JNull

text \<open>\<open>$set\<close> of one path of the Expense schema with \<open>runValidators\<close>: the cast to the type
  of the path and the validators of the path. \<open>None\<close> is the error thrown. A key that is no
  path of the schema is dropped (strict mode).\<close>

definition set_string_path ::
  "jsvalue \<Rightarrow> (string option \<Rightarrow> expense) \<Rightarrow> expense option" where
  "set_string_path v upd =
     (case v of JStr s \<Rightarrow> Some (upd (Some s)) | JNull \<Rightarrow> Some (upd None) | _ \<Rightarrow> None)"

definition set_ref_path ::
  "jsvalue \<Rightarrow> (objectid option \<Rightarrow> expense) \<Rightarrow> expense option" where
  "set_ref_path v upd =
     (case v of
        JStr s \<Rightarrow> if isValidObjectId s then Some (upd (Some s)) else None
      | JNull \<Rightarrow> Some (upd None)
      | _ \<Rightarrow> None)"

definition set_date_path ::
  "jsvalue \<Rightarrow> (jsdate option \<Rightarrow> expense) \<Rightarrow> expense option" where
  "set_date_path v upd =
     (case v of JDate d \<Rightarrow> Some (upd (Some d)) | JNull \<Rightarrow> Some (upd None) | _ \<Rightarrow> None)"

definition set_path :: "string \<Rightarrow> jsvalue \<Rightarrow> expense \<Rightarrow> expense option" where
  "set_path k v e =
     (if k = ''member'' then
        (case v of JStr s \<Rightarrow> if isValidObjectId s then Some (e\<lparr>member_ref := s\<rparr>) else None | _ \<Rightarrow> None)
      else if k = ''event'' then
        (case v of JStr s \<Rightarrow> if isValidObjectId s then Some (e\<lparr>event_ref := s\<rparr>) else None | _ \<Rightarrow> None)
      else if k = ''category'' then
        (case v of JStr s \<Rightarrow> if s \<in> set categories then Some (e\<lparr>category := s\<rparr>) else None | _ \<Rightarrow> None)
      else if k = ''amount'' then
        (case v of JNum a \<Rightarrow> if 1 \<le> a then Some (e\<lparr>amount := a\<rparr>) else None | _ \<Rightarrow> None)
      else if k = ''date'' then
        (case v of JDate d \<Rightarrow> Some (e\<lparr>date := d\<rparr>) | _ \<Rightarrow> None)
      else if k = ''paymentMode'' then
        (case v of JStr s \<Rightarrow> if s \<in> set paymentModes then Some (e\<lparr>paymentMode := s\<rparr>) else None | _ \<Rightarrow> None)
      else if k = ''description'' then
        (if maxlength 500 (case v of JStr s \<Rightarrow> Some s | _ \<Rightarrow> None)
         then set_string_path v (\<lambda>x. e\<lparr>description := x\<rparr>) else None)
      else if k = ''notes'' then
        (if maxlength 1000 (case v of JStr s \<Rightarrow> Some s | _ \<Rightarrow> None)
         then set_string_path v (\<lambda>x. e\<lparr>notes_field := x\<rparr>) else None)
      else if k = ''billUrl'' then set_string_path v (\<lambda>x. e\<lparr>billUrl := x\<rparr>)
      else if k = ''billPublicId'' then set_string_path v (\<lambda>x. e\<lparr>billPublicId := x\<rparr>)
      else if k = ''billOriginalName'' then set_string_path v (\<lambda>x. e\<lparr>billOriginalName := x\<rparr>)
      else if k = ''status'' then
        (case v of JStr s \<Rightarrow> if s \<in> set statuses then Some (e\<lparr>status := s\<rparr>) else None | _ \<Rightarrow> None)
      else if k = ''approvedBy'' then set_ref_path v (\<lambda>x. e\<lparr>approvedBy := x\<rparr>)
      else if k = ''approvedAt'' then set_date_path v (\<lambda>x. e\<lparr>approvedAt := x\<rparr>)
      else if k = ''rejectedBy'' then set_ref_path v (\<lambda>x. e\<lparr>rejectedBy := x\<rparr>)
      else if k = ''rejectedAt'' then set_date_path v (\<lambda>x. e\<lparr>rejectedAt := x\<rparr>)
      else if k = ''rejectionReason'' then set_string_path v (\<lambda>x. e\<lparr>rejectionReason := x\<rparr>)
      else if k = ''reimbursedBy'' then set_ref_path v (\<lambda>x. e\<lparr>reimbursedBy := x\<rparr>)
      else if k = ''reimbursedAt'' then set_date_path v (\<lambda>x. e\<lparr>reimbursedAt := x\<rparr>)
      else if k = ''reimbursementReference'' then
        set_string_path v (\<lambda>x. e\<lparr>reimbursementReference := x\<rparr>)
      else if k = ''rotaractYear'' then
        (case v of JStr s \<Rightarrow> if s \<noteq> [] then Some (e\<lparr>rotaractYear := s\<rparr>) else None | _ \<Rightarrow> None)
      else if k = ''isArchived'' then
        (case v of JBool b \<Rightarrow> Some (e\<lparr>isArchived := b\<rparr>) | _ \<Rightarrow> None)
      else Some e)"

fun apply_updates :: "(string \<times> jsvalue) list \<Rightarrow> expense \<Rightarrow> expense option" where
  "apply_updates [] e = Some e"
| "apply_updates ((k, v) # us) e =
     (case set_path k v e of None \<Rightarrow> None | Some e' \<Rightarrow> apply_updates us e')"

definition allowedUpdates :: "string list" where
  "allowedUpdates = [''category'', ''amount'', ''date'', ''paymentMode'', ''description'', ''notes'']"

text \<open>The \<open>updates\<close> object: the allowed keys of the body in the body's order, then the two
  paths of a newly uploaded bill.\<close>

definition build_updates :: "(string \<times> jsvalue) list \<Rightarrow> upload option \<Rightarrow> (string \<times> jsvalue) list" where
  "build_updates body file =
     filter (\<lambda>(k, v). k \<in> set allowedUpdates) body
     @ (case file of
          None \<Rightarrow> []
        | Some f \<Rightarrow> [(''billUrl'', JStr (''/uploads/bills/'' @ filename f)),
                     (''billOriginalName'', JStr (originalname f))])"

definition expenseValidation_update :: "(string \<times> jsvalue) list \<Rightarrow> bool" where
  "expenseValidation_update body =
     ((case map_of body ''category'' of
         None \<Rightarrow> True | Some (JStr s) \<Rightarrow> s \<in> set categories | Some _ \<Rightarrow> False)
      \<and> (case map_of body ''amount'' of
         None \<Rightarrow> True | Some (JNum a) \<Rightarrow> 1 \<le> a | Some _ \<Rightarrow> False)
      \<and> (case map_of body ''paymentMode'' of
         None \<Rightarrow> True | Some (JStr s) \<Rightarrow> s \<in> set paymentModes | Some _ \<Rightarrow> False))"

text \<open>\<open>findByIdAndUpdate(id, updates, { new: true, runValidators: true })\<close> on the stored
  document; an error thrown leaves the collection as it was.\<close>

definition updateExpense ::
  "string \<Rightarrow> (string \<times> jsvalue) list \<Rightarrow> upload option \<Rightarrow> expense list
     \<Rightarrow> expense reply \<times> expense list" where
  "updateExpense i body file db =
     (if \<not> expenseValidation_update body then (Reply 400 False ''Validation failed'' None, db)
      else if \<not> isValidObjectId i then (Reply 500 False ''Failed to update expense'' None, db)
      else
        (case findById i db of
           None \<Rightarrow> (Reply 404 False ''Expense not found'' None, db)
         | Some e \<Rightarrow>
             (case apply_updates (build_updates body file) e of
                None \<Rightarrow> (Reply 500 False ''Failed to update expense'' None, db)
              | Some e' \<Rightarrow>
                  (Reply 200 True ''Expense updated successfully'' (Some e'),
                   updateById i (\<lambda>_. e') db))))"

subsection \<open>deleteExpense\<close>

fun deleteById :: "objectid \<Rightarrow> expense list \<Rightarrow> expense list" where
  "deleteById i [] = []"
| "deleteById i (e # es) = (if oid e = i then es else e # deleteById i es)"

definition deleteExpense :: "string \<Rightarrow> expense list \<Rightarrow> expense reply \<times> expense list" where
  "deleteExpense i db =
     (if \<not> isValidObjectId i then (Reply 500 False ''Failed to delete expense'' None, db)
      else
        (case findById i db of
           None \<Rightarrow> (Reply 404 False ''Expense not found'' None, db)
         | Some e \<Rightarrow> (Reply 200 True ''Expense deleted successfully'' None, deleteById i db)))"

section \<open>Closing a year (archive controller)\<close>

text \<open>The Archive documents with the paths closeYear reads and assigns; the summary and the
  board snapshot it stores are computed from other collections and are not part of the
  record. closeYear also flags the events of the year, deactivates the board and, unless
  members are carried over, turns members into alumni: these collections are not part of
  the ledger.\<close>

record archive =
  a_rotaractYear :: string
  a_status :: string
  closedAt :: "jsdate option"
  closedBy :: "objectid option"
  a_notes :: "string option"

text \<open>\<open>Expense.updateMany(filter, { isArchived: true })\<close>.\<close>

definition updateMany :: "(expense \<Rightarrow> bool) \<Rightarrow> (expense \<Rightarrow> expense) \<Rightarrow> expense list \<Rightarrow> expense list" where
  "updateMany flt f db = map (\<lambda>e. if flt e then f e else e) db"

fun upsert_archive :: "string \<Rightarrow> (archive \<Rightarrow> archive) \<Rightarrow> archive \<Rightarrow> archive list \<Rightarrow> archive list" where
  "upsert_archive y f fresh [] = [fresh]"
| "upsert_archive y f fresh (a # as) =
     (if a_rotaractYear a = y then f a # as else a # upsert_archive y f fresh as)"

definition closeYear ::
  "objectid \<Rightarrow> jsdate \<Rightarrow> string option \<Rightarrow> archive list \<times> expense list
     \<Rightarrow> archive reply \<times> archive list \<times> expense list" where
  "closeYear user now notes st =
     (let currentYear = getFinancialYear now; archives = fst st; db = snd st
      in if find (\<lambda>a. a_rotaractYear a = currentYear \<and> a_status a = ''archived'') archives \<noteq> None
         then (Reply 400 False ''This year has already been archived'' None, st)
         else
           (let close = (\<lambda>a. a\<lparr>a_status := ''archived'', closedAt := Some now,
                                closedBy := Some user, a_notes := notes\<rparr>);
                fresh = \<lparr>a_rotaractYear = currentYear, a_status = ''archived'', closedAt = Some now,
                         closedBy = Some user, a_notes = notes\<rparr>;
                archives' = upsert_archive currentYear close fresh archives
            in (Reply 200 True (''Year '' @ currentYear @ '' has been closed and archived'')
                  (find (\<lambda>a. a_rotaractYear a = currentYear) archives'),
                archives',
                updateMany (\<lambda>e. rotaractYear e = currentYear) (\<lambda>e. e\<lparr>isArchived := True\<rparr>) db)))"

section \<open>Aggregation pipelines (report controller)\<close>

text \<open>
  The stages of \<open>Expense.aggregate\<close>. \<open>$match\<close> is \<open>filter\<close>, \<open>$limit\<close> is \<open>take\<close>.
  MongoDB leaves open the order in which \<open>$group\<close> emits its groups and the order \<open>$sort\<close>
  gives to documents with equal keys. The model emits each group where its first document
  is scanned and sorts stably; since the scan order of the collection is arbitrary, every
  order of the groups is the model's order for some scan.
\<close>

subsection \<open>Number arithmetic\<close>

text \<open>
  IEEE 754 binary64 addition on the values of doubles: the exact sum is rounded to 53
  significant bits, to the nearest double and to the even significand on a tie.
  \<open>binary_exponent x\<close> is the \<open>e\<close> with \<open>2^e \<le> x < 2^(e+1)\<close> for a positive \<open>x\<close>, and
  \<open>ulp x\<close> the distance \<open>2^(e-52)\<close> between the doubles around \<open>x\<close>.
\<close>

function bit_length :: "int \<Rightarrow> nat" where
  "bit_length k = (if k \<le> 0 then 0 else Suc (bit_length (k div 2)))"
  by pat_completeness auto
termination
  by (relation "measure nat") auto

declare bit_length.simps [simp del]

definition binary_exponent :: "rat \<Rightarrow> int" where
  "binary_exponent x =
     (if 1 \<le> x then int (bit_length \<lfloor>x\<rfloor>) - 1
      else - int (bit_length (\<lceil>1 / x\<rceil> - 1)))"

definition round_half_even :: "rat \<Rightarrow> int" where
  "round_half_even q =
     (let f = \<lfloor>q\<rfloor>; d = q - of_int f
      in if d < 1 / 2 then f else if 1 / 2 < d then f + 1 else if even f then f else f + 1)"

definition ulp :: "rat \<Rightarrow> rat" where
  "ulp x =
     (let e = binary_exponent x
      in if 52 \<le> e then 2 ^ nat (e - 52) else 1 / 2 ^ nat (52 - e))"

definition round_double :: "rat \<Rightarrow> rat" where
  "round_double x =
     (if x = 0 then 0
      else sgn x * (ulp \<bar>x\<bar> * of_int (round_half_even (\<bar>x\<bar> / ulp \<bar>x\<bar>))))"

text \<open>JavaScript's \<open>a + b\<close> on Numbers, and a sum accumulated from 0 in list order.\<close>

definition dadd :: "rat \<Rightarrow> rat \<Rightarrow> rat" where
  "dadd a b = round_double (a + b)"

definition dsum :: "rat list \<Rightarrow> rat" where
  "dsum xs = foldl dadd 0 xs"

record 'k rollup =
  gid :: 'k
  gtotal :: rat
  gcount :: nat

text \<open>\<open>$group\<close>: the documents of each key, in scan order.\<close>

fun group_docs :: "('e \<Rightarrow> 'k) \<Rightarrow> 'e list \<Rightarrow> ('k \<times> 'e list) list" where
  "group_docs key [] = []"
| "group_docs key (x # xs) =
     (key x, x # filter (\<lambda>y. key y = key x) xs) # group_docs key (filter (\<lambda>y. key y \<noteq> key x) xs)"

text \<open>\<open>{ $group: { _id: key, total: { $sum: "$amount" }, count: { $sum: 1 } } }\<close>; \<open>$sum\<close> adds
  the amounts of the group in scan order.\<close>

definition group_sum :: "(expense \<Rightarrow> 'k) \<Rightarrow> expense list \<Rightarrow> 'k rollup list" where
  "group_sum key xs =
     map (\<lambda>(k, ds). \<lparr>gid = k, gtotal = dsum (map amount ds), gcount = length ds\<rparr>)
       (group_docs key xs)"

text \<open>\<open>{ $sort: { total: -1 } }\<close>.\<close>

definition sort_total_desc :: "'k rollup list \<Rightarrow> 'k rollup list" where
  "sort_total_desc gs = sort_key (\<lambda>g. - gtotal g) gs"

text \<open>\<open>$lookup\<close> on \<open>_id\<close> followed by \<open>$unwind\<close>: one output document for each document of
  the other collection that the group's key refers to, none when there is no such document.\<close>

definition lookup_unwind ::
  "('g \<Rightarrow> objectid) \<Rightarrow> ('d \<Rightarrow> objectid) \<Rightarrow> 'd list \<Rightarrow> 'g list \<Rightarrow> ('g \<times> 'd) list" where
  "lookup_unwind local ident coll gs =
     concat (map (\<lambda>g. map (\<lambda>d. (g, d)) (filter (\<lambda>d. ident d = local g) coll)) gs)"

definition contributing :: "string list" where
  "contributing = [''approved'', ''reimbursed'', ''paid'']"

subsection \<open>getFinancialSummary\<close>

text \<open>\<open>rotaractYear || getFinancialYear()\<close> of the query string.\<close>

definition report_year :: "string option \<Rightarrow> jsdate \<Rightarrow> string" where
  "report_year q now = (if falsy q then getFinancialYear now else the q)"

definition expensesByCategory :: "string \<Rightarrow> expense list \<Rightarrow> string rollup list" where
  "expensesByCategory year db =
     sort_total_desc (group_sum category (filter (\<lambda>e. rotaractYear e = year) db))"

definition expensesByStatus :: "string \<Rightarrow> expense list \<Rightarrow> string rollup list" where
  "expensesByStatus year db = group_sum status (filter (\<lambda>e. rotaractYear e = year) db)"

text \<open>The key of the month grouping is \<open>{ month: { $month: "$date" }, year: { $year: "$date" } }\<close>,
  here the pair (month, year) with months counted from 1; the sort is on the year, then on
  the month.\<close>

definition month_key :: "expense \<Rightarrow> nat \<times> int" where
  "month_key e = (monthIndex (date e) + 1, fullYear (date e))"

definition expensesByMonth :: "string \<Rightarrow> expense list \<Rightarrow> (nat \<times> int) rollup list" where
  "expensesByMonth year db =
     sort_key (\<lambda>g. (snd (gid g), fst (gid g)))
       (group_sum month_key (filter (\<lambda>e. rotaractYear e = year) db))"

definition expensesByEvent ::
  "string \<Rightarrow> event_doc list \<Rightarrow> expense list \<Rightarrow> (objectid rollup \<times> event_doc) list" where
  "expensesByEvent year events db =
     lookup_unwind gid ev_id events
       (take 10 (sort_total_desc (group_sum event_ref (filter (\<lambda>e. rotaractYear e = year) db))))"

definition topContributors ::
  "string \<Rightarrow> user_doc list \<Rightarrow> expense list \<Rightarrow> (objectid rollup \<times> user_doc) list" where
  "topContributors year users db =
     lookup_unwind gid uid users
       (take 10 (sort_total_desc (group_sum member_ref
          (filter (\<lambda>e. rotaractYear e = year \<and> status e \<in> set contributing) db))))"

record totals =
  totalExpenses :: rat
  totalApproved :: rat
  totalPending :: rat
  totalRejected :: rat
  totalReimbursed :: rat

text \<open>\<open>expensesByStatus.find((s) => s._id === name)?.total || 0\<close>.\<close>

definition status_total :: "string \<Rightarrow> string rollup list \<Rightarrow> rat" where
  "status_total name byStatus =
     (case find (\<lambda>s. gid s = name) byStatus of None \<Rightarrow> 0 | Some s \<Rightarrow> gtotal s)"

text \<open>\<open>expensesByStatus.reduce((sum, item) => sum + item.total, 0)\<close> and the four lookups.\<close>

definition calculate_totals :: "string rollup list \<Rightarrow> totals" where
  "calculate_totals byStatus =
     \<lparr>totalExpenses = foldl (\<lambda>sum item. dadd sum (gtotal item)) 0 byStatus,
      totalApproved = status_total ''approved'' byStatus,
      totalPending = status_total ''pending'' byStatus,
      totalRejected = status_total ''rejected'' byStatus,
      totalReimbursed = status_total ''reimbursed'' byStatus\<rparr>"

record financial_summary =
  fs_rotaractYear :: string
  fs_totals :: totals
  fs_expensesByCategory :: "string rollup list"
  fs_expensesByStatus :: "string rollup list"
  fs_expensesByMonth :: "(nat \<times> int) rollup list"
  fs_expensesByEvent :: "(objectid rollup \<times> event_doc) list"
  fs_topContributors :: "(objectid rollup \<times> user_doc) list"

definition getFinancialSummary ::
  "string option \<Rightarrow> jsdate \<Rightarrow> user_doc list \<Rightarrow> event_doc list \<Rightarrow> expense list \<Rightarrow> financial_summary" where
  "getFinancialSummary q now users events db =
     (let year = report_year q now
      in \<lparr>fs_rotaractYear = year,
          fs_totals = calculate_totals (expensesByStatus year db),
          fs_expensesByCategory = expensesByCategory year db,
          fs_expensesByStatus = expensesByStatus year db,
          fs_expensesByMonth = expensesByMonth year db,
          fs_expensesByEvent = expensesByEvent year events db,
          fs_topContributors = topContributors year users db\<rparr>)"

subsection \<open>getLeaderboard\<close>

record board_group =
  bg_id :: objectid
  bg_totalContribution :: rat
  bg_expenseCount :: nat
  bg_eventsContributed :: "objectid list"

record member_card =
  mc_firstName :: string
  mc_lastName :: string
  mc_memberId :: string
  mc_photo :: "string option"
  mc_role :: string

record leaderboard_item =
  lb_id :: objectid
  totalContribution :: rat
  expenseCount :: nat
  eventsCount :: nat
  lb_member :: member_card

record ranked =
  rank :: nat
  item :: leaderboard_item

text \<open>\<open>{ $group: { _id: "$member", totalContribution: { $sum: "$amount" },
  expenseCount: { $sum: 1 }, eventsContributed: { $addToSet: "$event" } } }\<close>.\<close>

definition group_board :: "expense list \<Rightarrow> board_group list" where
  "group_board xs =
     map (\<lambda>(k, ds). \<lparr>bg_id = k, bg_totalContribution = dsum (map amount ds),
                      bg_expenseCount = length ds,
                      bg_eventsContributed = remdups (map event_ref ds)\<rparr>)
       (group_docs member_ref xs)"

definition project_board :: "board_group \<times> user_doc \<Rightarrow> leaderboard_item" where
  "project_board gu =
     (case gu of (g, u) \<Rightarrow>
        \<lparr>lb_id = bg_id g, totalContribution = bg_totalContribution g,
         expenseCount = bg_expenseCount g, eventsCount = length (bg_eventsContributed g),
         lb_member = \<lparr>mc_firstName = firstName u, mc_lastName = lastName u,
                       mc_memberId = memberId u, mc_photo = photo u, mc_role = role u\<rparr>\<rparr>)"

definition leaderboard :: "string \<Rightarrow> user_doc list \<Rightarrow> expense list \<Rightarrow> leaderboard_item list" where
  "leaderboard year users db =
     map project_board
       (lookup_unwind bg_id uid users
          (take 20 (sort_key (\<lambda>g. - bg_totalContribution g)
             (group_board (filter (\<lambda>e. rotaractYear e = year \<and> status e \<in> set contributing) db)))))"

text \<open>\<open>leaderboard.map((item, index) => ({ rank: index + 1, ...item }))\<close>.\<close>

definition add_rank :: "leaderboard_item list \<Rightarrow> ranked list" where
  "add_rank items = map (\<lambda>(it, index). \<lparr>rank = index + 1, item = it\<rparr>) (zip items [0 ..< length items])"

definition getLeaderboard ::
  "string option \<Rightarrow> jsdate \<Rightarrow> user_doc list \<Rightarrow> expense list \<Rightarrow> ranked list" where
  "getLeaderboard q now users db = add_rank (leaderboard (report_year q now) users db)"

section \<open>Runs of the ledger\<close>

text \<open>The requests that write the Expense collection, each with the arguments of its
  handler; the state is the Archive and the Expense collection.\<close>

datatype request =
    CreateExpense objectid jsdate objectid "event_doc list" expense_body "upload option"
  | UpdateExpense string "(string \<times> jsvalue) list" "upload option"
  | Transition command objectid jsdate string
  | DeleteExpense string
  | CloseYear objectid jsdate "string option"
  | AddManualExpense objectid jsdate objectid "user_doc list" "event_doc list" expense_body "upload option"

fun handle :: "request \<Rightarrow> archive list \<times> expense list \<Rightarrow> archive list \<times> expense list" where
  "handle (CreateExpense user now newId events b file) (ar, db) =
     (ar, snd (createExpense user now newId events b file db))"
| "handle (UpdateExpense i body file) (ar, db) = (ar, snd (updateExpense i body file db))"
| "handle (Transition c user now i) (ar, db) = (ar, snd (transition c user now i db))"
| "handle (DeleteExpense i) (ar, db) = (ar, snd (deleteExpense i db))"
| "handle (CloseYear user now notes) (ar, db) = snd (closeYear user now notes (ar, db))"
| "handle (AddManualExpense user now newId users events b file) (ar, db) =
     (ar, snd (addManualExpense user now newId users events b file db))"

definition run :: "request list \<Rightarrow> archive list \<times> expense list \<Rightarrow> archive list \<times> expense list" where
  "run rs st = fold handle rs st"

text \<open>The manual creation requests that ask for status \<open>paid\<close> and insert under id \<open>i\<close>.\<close>

fun manual_paid :: "objectid \<Rightarrow> request \<Rightarrow> bool" where
  "manual_paid i (AddManualExpense user now newId users events b file) =
     (newId = i \<and> b_status b = Some ''paid'')"
| "manual_paid i _ = False"

section \<open>Properties stated by the specification\<close>


text \<open>An InvalidTransition error carrying the status \<open>s\<close>: HTTP 400 whose message ends with
  \<open>s\<close>, as in \<open>Cannot approve expense with status: ${expense.status}\<close>.\<close>

definition invalid_transition_reply :: "expense reply \<Rightarrow> string \<Rightarrow> bool" where
  "invalid_transition_reply r s =
     (http_status r = 400 \<and> \<not> success r \<and> data r = None \<and> suffix s (message r))"

text \<open>The order the specification states for a rollup: total descending, equal totals by
  group key ascending.\<close>

definition spec_order :: "('k::linorder) rollup list \<Rightarrow> bool" where
  "spec_order gs =
     sorted_wrt (\<lambda>a b. gtotal a > gtotal b \<or> (gtotal a = gtotal b \<and> gid a \<le> gid b)) gs"

definition total_descending :: "'k rollup list \<Rightarrow> bool" where
  "total_descending gs = sorted_wrt (\<lambda>a b. gtotal a \<ge> gtotal b) gs"

definition chronological :: "(nat \<times> int) rollup list \<Rightarrow> bool" where
  "chronological gs =
     sorted_wrt (\<lambda>a b. snd (gid a) < snd (gid b) \<or> (snd (gid a) = snd (gid b) \<and> fst (gid a) \<le> fst (gid b))) gs"

text \<open>The records the specification counts for the contributor views of a year: those with
  status approved, reimbursed or paid; what one member contributed is the rollup of that
  member's counted records.\<close>

definition counted :: "string \<Rightarrow> expense list \<Rightarrow> expense list" where
  "counted year db =
     filter (\<lambda>e. rotaractYear e = year
                \<and> (status e = ''approved'' \<or> status e = ''reimbursed'' \<or> status e = ''paid'')) db"

definition contribution :: "string \<Rightarrow> expense list \<Rightarrow> objectid \<Rightarrow> rat" where
  "contribution year db m = dsum (map amount (filter (\<lambda>e. member_ref e = m) (counted year db)))"

definition contributions :: "string \<Rightarrow> expense list \<Rightarrow> objectid \<Rightarrow> nat" where
  "contributions year db m = length (filter (\<lambda>e. member_ref e = m) (counted year db))"

text \<open>The records of a year with a given status.\<close>

definition with_status :: "string \<Rightarrow> string \<Rightarrow> expense list \<Rightarrow> expense list" where
  "with_status year s db = filter (\<lambda>e. rotaractYear e = year \<and> status e = s) db"

text \<open>Referential integrity of the member references: ids of users are unique and every
  expense refers to a stored user (deleteMember refuses a member who has expenses).\<close>

definition members_exist :: "user_doc list \<Rightarrow> expense list \<Rightarrow> bool" where
  "members_exist users db = (distinct (map uid users) \<and> list_all (\<lambda>e. member_ref e \<in> uid ` set users) db)"

text \<open>The top-\<open>n\<close> contributors view of the specification, on rows (member, total, count):
  one row for each of the \<open>n\<close> best contributing members (all of them when there are
  fewer), each with the sum and the number of that member's counted records, in descending
  order of the totals; a member outside the rows has contributed no more than any row.\<close>

definition top_view :: "nat \<Rightarrow> string \<Rightarrow> expense list \<Rightarrow> (objectid \<times> rat \<times> nat) list \<Rightarrow> bool" where
  "top_view n year db rows =
     (length rows = min n (card (member_ref ` set (counted year db)))
      \<and> distinct (map fst rows)
      \<and> list_all (\<lambda>r. fst r \<in> member_ref ` set (counted year db)
                       \<and> fst (snd r) = contribution year db (fst r)
                       \<and> snd (snd r) = contributions year db (fst r)) rows
      \<and> sorted_wrt (\<lambda>a b. fst (snd a) \<ge> fst (snd b)) rows
      \<and> list_all (\<lambda>e. member_ref e \<in> fst ` set rows
                       \<or> list_all (\<lambda>r. contribution year db (member_ref e) \<le> fst (snd r)) rows)
           (counted year db))"

text \<open>The rows of the member grouping of a record list, before sorting.\<close>

definition member_rows :: "expense list \<Rightarrow> (objectid \<times> rat \<times> nat) list" where
  "member_rows recs =
     map (\<lambda>g. (fst g, dsum (map amount (snd g)), length (snd g))) (group_docs member_ref recs)"

text \<open>The member rollup of the counted records in descending order of total, cut to \<open>n\<close> rows.\<close>

definition top_cut :: "nat \<Rightarrow> string \<Rightarrow> expense list \<Rightarrow> (objectid \<times> rat \<times> nat) list" where
  "top_cut n year db = take n (sort_key (\<lambda>r. - fst (snd r)) (member_rows (counted year db)))"

definition rollup_row :: "objectid rollup \<Rightarrow> objectid \<times> rat \<times> nat" where
  "rollup_row g = (gid g, gtotal g, gcount g)"

definition ranked_row :: "ranked \<Rightarrow> objectid \<times> rat \<times> nat" where
  "ranked_row r = (lb_id (item r), totalContribution (item r), expenseCount (item r))"

section \<open>Sample data\<close>

definition sample_date :: jsdate where
  "sample_date = \<lparr>fullYear = 2025, monthIndex = 8, dayOfMonth = 14, timeOfDay = 0\<rparr>"

definition sample_expense :: expense where
  "sample_expense =
     \<lparr>oid = ''65a1b2c3d4e5f60718293a4b'', member_ref = ''65a1b2c3d4e5f60718293a01'',
      event_ref = ''65a1b2c3d4e5f60718293a02'', category = ''travel_expense'', amount = 1500,
      date = sample_date, paymentMode = ''upi'', description = None, notes_field = None,
      billUrl = None, billPublicId = None, billOriginalName = None, status = ''pending'',
      approvedBy = None, approvedAt = None, rejectedBy = None, rejectedAt = None,
      rejectionReason = None, reimbursedBy = None, reimbursedAt = None,
      reimbursementReference = None, rotaractYear = ''2025-2026'', isArchived = False\<rparr>"

definition sample_user :: user_doc where
  "sample_user =
     \<lparr>uid = ''65a1b2c3d4e5f60718293a01'', firstName = ''Asha'', lastName = ''Rao'',
      email = ''asha@example.org'', memberId = ''RC251234'', photo = None, role = ''member''\<rparr>"

definition sample_event :: event_doc where
  "sample_event = \<lparr>ev_id = ''65a1b2c3d4e5f60718293a02'', ev_name = ''Blood donation camp''\<rparr>"

definition sample_body :: expense_body where
  "sample_body =
     \<lparr>b_member = Some ''65a1b2c3d4e5f60718293a01'', b_event = Some ''65a1b2c3d4e5f60718293a02'',
      b_category = Some ''food_refreshments'', b_amount = Some 250, b_date = Some sample_date,
      b_paymentMode = Some ''cash'', b_description = None, b_notes = None, b_status = None\<rparr>"

definition sample_manual_request :: request where
  "sample_manual_request =
     AddManualExpense ''65a1b2c3d4e5f60718293a09'' sample_date ''65a1b2c3d4e5f60718293a77''
       [sample_user] [sample_event] (sample_body\<lparr>b_status := Some ''paid''\<rparr>) None"

definition sample_paid_expense :: expense where
  "sample_paid_expense =
     sample_expense\<lparr>oid := ''65a1b2c3d4e5f60718293a77'', category := ''food_refreshments'',
       amount := 250, paymentMode := ''cash'', description := Some [], notes_field := Some [],
       status := ''paid'', approvedBy := Some ''65a1b2c3d4e5f60718293a09'',
       approvedAt := Some sample_date\<rparr>"

text \<open>A ledger of 22 contributing members (member 0 with two records) and one member whose
  only record is pending; and a ledger of two contributors.\<close>

definition two_digits :: "nat \<Rightarrow> string" where
  "two_digits k = [''0123456789'' ! (k div 10), ''0123456789'' ! (k mod 10)]"

definition member_id :: "nat \<Rightarrow> objectid" where
  "member_id k = two_digits k @ ''a1b2c3d4e5f60718293a01''"

definition sample_member :: "nat \<Rightarrow> user_doc" where
  "sample_member k = sample_user\<lparr>uid := member_id k\<rparr>"

definition sample_claim :: "nat \<Rightarrow> expense" where
  "sample_claim k =
     sample_expense\<lparr>oid := two_digits k @ ''a1b2c3d4e5f60718293a4b'', member_ref := member_id k,
       amount := of_nat (100 + 10 * k),
       status := [''approved'', ''reimbursed'', ''paid''] ! (k mod 3)\<rparr>"

definition sample_members :: "user_doc list" where
  "sample_members = map sample_member [0 ..< 23]"

definition sample_ledger :: "expense list" where
  "sample_ledger =
     map sample_claim [0 ..< 22]
     @ [sample_expense\<lparr>oid := ''90a1b2c3d4e5f60718293a4b'', member_ref := member_id 22\<rparr>,
        sample_expense\<lparr>oid := ''91a1b2c3d4e5f60718293a4b'', member_ref := member_id 0,
          amount := 500, status := ''approved''\<rparr>]"

definition two_contributors :: "expense list" where
  "two_contributors =
     [sample_expense\<lparr>amount := 200, status := ''reimbursed''\<rparr>,
      sample_expense\<lparr>oid := ''91a1b2c3d4e5f60718293a4b'', member_ref := member_id 3,
        amount := 300, status := ''approved''\<rparr>]"

section \<open>The transitions follow the state machine\<close>

lemma findById_SomeD: "findById i db = Some e \<Longrightarrow> oid e = i \<and> e \<in> set db"
  unfolding findById_def by (induction db) (auto split: if_splits)




lemma approve_refused:
  assumes "isValidObjectId i" "findById i db = Some e" "status e \<noteq> ''pending''"
  shows "approveExpense user now i db =
    (Reply 400 False (''Cannot approve expense with status: '' @ status e) None, db)"
  using assms by (simp add: approveExpense_def approve_resume_def)


lemma reject_refused:
  assumes "isValidObjectId i" "findById i db = Some e" "status e \<noteq> ''pending''" "r \<noteq> []"
  shows "rejectExpense user now (Some r) i db =
    (Reply 400 False (''Cannot reject expense with status: '' @ status e) None, db)"
  using assms by (simp add: rejectExpense_def reject_resume_def)



lemma reimburse_refused:
  assumes "isValidObjectId i" "findById i db = Some e" "status e \<noteq> ''approved''"
  shows "reimburseExpense user now ref i db =
    (Reply 400 False ''Only approved expenses can be marked as reimbursed'' None, db)"
  using assms by (simp add: reimburseExpense_def reimburse_resume_def)



lemma sample_valid: "isValidObjectId ''65a1b2c3d4e5f60718293a4b''"
  by (simp add: isValidObjectId_def isHexDigit_def)






section \<open>Refused transitions, the rejection reason, and two approvals\<close>

lemma patch_oid [simp]:
  "oid (approve_patch u t e) = oid e" "oid (reject_patch u t r e) = oid e"
  "oid (reimburse_patch u t x e) = oid e"
  by (simp_all add: approve_patch_def reject_patch_def reimburse_patch_def)

text \<open>
  Claim C3, amended. On a stored expense whose status is not pending, approve and reject
  (called with a non-empty reason) fail with HTTP 400 and a message that ends with the
  current status; on one whose status is not approved, reimburse fails with HTTP 400; in
  each case the collection is left as it was.
\<close>

theorem refused_transition_unmodified:
  assumes "isValidObjectId i" and "findById i db = Some e"
  shows "(status e \<noteq> ''pending'' \<longrightarrow>
            invalid_transition_reply (fst (approveExpense user now i db)) (status e)
            \<and> snd (approveExpense user now i db) = db)
       \<and> (status e \<noteq> ''pending'' \<and> r \<noteq> [] \<longrightarrow>
            invalid_transition_reply (fst (rejectExpense user now (Some r) i db)) (status e)
            \<and> snd (rejectExpense user now (Some r) i db) = db)
       \<and> (status e \<noteq> ''approved'' \<longrightarrow>
            http_status (fst (reimburseExpense user now reference i db)) = 400
            \<and> \<not> success (fst (reimburseExpense user now reference i db))
            \<and> snd (reimburseExpense user now reference i db) = db)"
  using approve_refused[OF assms, of user now] reject_refused[OF assms, of r user now]
    reimburse_refused[OF assms, of user now reference]
  by (simp add: invalid_transition_reply_def suffix_def)

theorem refused_transition_unmodified_witness:
  "isValidObjectId ''65a1b2c3d4e5f60718293a4b''
   \<and> findById ''65a1b2c3d4e5f60718293a4b'' [sample_expense\<lparr>status := ''rejected''\<rparr>]
       = Some (sample_expense\<lparr>status := ''rejected''\<rparr>)
   \<and> ''rejected'' \<noteq> ''pending'' \<and> ''no bill'' \<noteq> [] \<and> ''rejected'' \<noteq> ''approved''
   \<and> fst (approveExpense ''65a1b2c3d4e5f60718293a01'' sample_date ''65a1b2c3d4e5f60718293a4b''
        [sample_expense\<lparr>status := ''rejected''\<rparr>])
       = Reply 400 False ''Cannot approve expense with status: rejected'' None
   \<and> invalid_transition_reply
        (fst (rejectExpense ''65a1b2c3d4e5f60718293a01'' sample_date (Some ''no bill'')
           ''65a1b2c3d4e5f60718293a4b'' [sample_expense\<lparr>status := ''rejected''\<rparr>])) ''rejected''
   \<and> snd (reimburseExpense ''65a1b2c3d4e5f60718293a01'' sample_date None
        ''65a1b2c3d4e5f60718293a4b'' [sample_expense\<lparr>status := ''rejected''\<rparr>])
       = [sample_expense\<lparr>status := ''rejected''\<rparr>]"
proof -
  let ?e = "sample_expense\<lparr>status := ''rejected''\<rparr>"
  have f: "findById ''65a1b2c3d4e5f60718293a4b'' [?e] = Some ?e"
    by (simp add: findById_def sample_expense_def)
  have s: "status ?e = ''rejected''" by simp
  have a: "fst (approveExpense ''65a1b2c3d4e5f60718293a01'' sample_date ''65a1b2c3d4e5f60718293a4b'' [?e])
       = Reply 400 False ''Cannot approve expense with status: rejected'' None"
    using f sample_valid by (simp add: approveExpense_def approve_resume_def)
  from refused_transition_unmodified[OF sample_valid f, of "''65a1b2c3d4e5f60718293a01''" sample_date
      "''no bill''" None] s a sample_valid f
  show ?thesis by simp
qed

theorem refused_transition_counterexample:
  "status sample_expense = ''pending''
   \<and> fst (reimburseExpense ''65a1b2c3d4e5f60718293a01'' sample_date None
        ''65a1b2c3d4e5f60718293a4b'' [sample_expense])
       = Reply 400 False ''Only approved expenses can be marked as reimbursed'' None
   \<and> \<not> invalid_transition_reply
        (fst (reimburseExpense ''65a1b2c3d4e5f60718293a01'' sample_date None
           ''65a1b2c3d4e5f60718293a4b'' [sample_expense])) ''pending''
   \<and> fst (rejectExpense ''65a1b2c3d4e5f60718293a01'' sample_date (Some [])
        ''65a1b2c3d4e5f60718293a4b'' [sample_expense\<lparr>status := ''approved''\<rparr>])
       = Reply 400 False ''Rejection reason is required'' None
   \<and> \<not> invalid_transition_reply
        (fst (rejectExpense ''65a1b2c3d4e5f60718293a01'' sample_date (Some [])
           ''65a1b2c3d4e5f60718293a4b'' [sample_expense\<lparr>status := ''approved''\<rparr>])) ''approved''"
proof -
  have f: "findById ''65a1b2c3d4e5f60718293a4b'' [sample_expense] = Some sample_expense"
    by (simp add: findById_def sample_expense_def)
  have p: "status sample_expense = ''pending''" by (simp add: sample_expense_def)
  have r: "fst (reimburseExpense ''65a1b2c3d4e5f60718293a01'' sample_date None
        ''65a1b2c3d4e5f60718293a4b'' [sample_expense])
       = Reply 400 False ''Only approved expenses can be marked as reimbursed'' None"
    using reimburse_refused[OF sample_valid f] p by simp
  have j: "fst (rejectExpense ''65a1b2c3d4e5f60718293a01'' sample_date (Some [])
        ''65a1b2c3d4e5f60718293a4b'' [sample_expense\<lparr>status := ''approved''\<rparr>])
       = Reply 400 False ''Rejection reason is required'' None"
    by (simp add: rejectExpense_def)
  show ?thesis
    unfolding r j using p
    by (simp add: invalid_transition_reply_def suffix_to_prefix)
qed

text \<open>
  Claim C4. A reject request whose reason is missing or empty fails with HTTP 400
  \<open>Rejection reason is required\<close> before the expense is looked up: whatever the expense and
  its status, the collection is left as it was.
\<close>

theorem reject_requires_reason:
  assumes "reason = None \<or> reason = Some []"
  shows "rejectExpense user now reason i db =
           (Reply 400 False ''Rejection reason is required'' None, db)"
  using assms by (auto simp add: rejectExpense_def)

theorem reject_requires_reason_witness:
  "(Some [] = (None :: string option) \<or> Some [] = Some ([] :: string))
   \<and> rejectExpense ''65a1b2c3d4e5f60718293a01'' sample_date (Some [])
        ''65a1b2c3d4e5f60718293a4b'' [sample_expense]
       = (Reply 400 False ''Rejection reason is required'' None, [sample_expense])"
  using reject_requires_reason[of "Some []" "''65a1b2c3d4e5f60718293a01''" sample_date
      "''65a1b2c3d4e5f60718293a4b''" "[sample_expense]"]
  by simp




section \<open>Creation: the manual path and the normal submission\<close>

lemma Expense_create_SomeD:
  "Expense_create newId f db = Some (doc, db') \<Longrightarrow>
     doc = new_document newId f \<and> db' = db @ [doc] \<and> schema_valid doc"
  by (auto simp add: Expense_create_def Let_def split: if_splits)

lemma addManualExpense_cases:
  "snd (addManualExpense user now newId users events b file db) = db
   \<or> (\<exists>doc. addManualExpense user now newId users events b file db
              = (Reply 201 True ''Manual expense added successfully'' (Some doc), db @ [doc])
        \<and> oid doc = newId
        \<and> status doc = or_default (b_status b) ''approved''
        \<and> approvedBy doc = Some user \<and> approvedAt doc = Some now
        \<and> rotaractYear doc = getFinancialYear now)"
  by (auto simp add: addManualExpense_def Let_def new_document_def
      split: option.splits dest!: Expense_create_SomeD)

lemma createExpense_cases:
  "snd (createExpense user now newId events b file db) = db
   \<or> (\<exists>doc. createExpense user now newId events b file db
              = (Reply 201 True ''Expense submitted successfully'' (Some doc), db @ [doc])
        \<and> oid doc = newId
        \<and> status doc = ''pending''
        \<and> approvedBy doc = None \<and> approvedAt doc = None
        \<and> rotaractYear doc = getFinancialYear now)"
  by (auto simp add: createExpense_def Let_def new_document_def
      split: option.splits dest!: Expense_create_SomeD)




lemma sample_year: "getFinancialYear sample_date = ''2025-2026''"
  by (simp add: getFinancialYear_def sample_date_def toString_def digits10.simps)

lemma sample_valid_member: "isValidObjectId ''65a1b2c3d4e5f60718293a01''"
  by (simp add: isValidObjectId_def isHexDigit_def)

lemma sample_valid_event: "isValidObjectId ''65a1b2c3d4e5f60718293a02''"
  by (simp add: isValidObjectId_def isHexDigit_def)

lemma sample_manual:
  assumes "s \<in> set statuses"
  shows "addManualExpense ''65a1b2c3d4e5f60718293a09'' sample_date ''65a1b2c3d4e5f60718293a77''
        [sample_user] [sample_event] (sample_body\<lparr>b_status := Some s\<rparr>) None []
   = (Reply 201 True ''Manual expense added successfully''
          (Some (new_document ''65a1b2c3d4e5f60718293a77''
             \<lparr>f_member = ''65a1b2c3d4e5f60718293a01'', f_event = ''65a1b2c3d4e5f60718293a02'',
              f_category = ''food_refreshments'', f_amount = 250, f_date = sample_date,
              f_paymentMode = ''cash'', f_description = Some [], f_notes = Some [],
              f_status = Some s, f_billUrl = None, f_billOriginalName = None,
              f_approvedBy = Some ''65a1b2c3d4e5f60718293a09'', f_approvedAt = Some sample_date,
              f_rotaractYear = ''2025-2026''\<rparr>)),
         [new_document ''65a1b2c3d4e5f60718293a77''
             \<lparr>f_member = ''65a1b2c3d4e5f60718293a01'', f_event = ''65a1b2c3d4e5f60718293a02'',
              f_category = ''food_refreshments'', f_amount = 250, f_date = sample_date,
              f_paymentMode = ''cash'', f_description = Some [], f_notes = Some [],
              f_status = Some s, f_billUrl = None, f_billOriginalName = None,
              f_approvedBy = Some ''65a1b2c3d4e5f60718293a09'', f_approvedAt = Some sample_date,
              f_rotaractYear = ''2025-2026''\<rparr>])"
proof -
  from assms have ne: "s \<noteq> []" by (auto simp add: statuses_def)
  show ?thesis
    using sample_valid_member sample_valid_event ne assms
    by (simp add: addManualExpense_def sample_body_def sample_user_def sample_event_def falsy_def
      or_default_def file_billUrl_def file_originalName_def Expense_create_def sample_year
      schema_valid_def new_document_def categories_def paymentModes_def maxlength_def Let_def)
qed




section \<open>What the requests leave unchanged\<close>

lemma set_path_allowed:
  assumes "k \<in> set allowedUpdates \<or> k = ''billUrl'' \<or> k = ''billOriginalName''"
    and "set_path k v e = Some e'"
  shows "oid e' = oid e \<and> status e' = status e \<and> rotaractYear e' = rotaractYear e
         \<and> isArchived e' = isArchived e"
proof -
  from assms(1) have "k = ''category'' \<or> k = ''amount'' \<or> k = ''date'' \<or> k = ''paymentMode''
    \<or> k = ''description'' \<or> k = ''notes'' \<or> k = ''billUrl'' \<or> k = ''billOriginalName''"
    unfolding allowedUpdates_def by simp
  then show ?thesis
  proof (elim disjE)
    assume "k = ''category''"
    with assms(2) show ?thesis
      by (simp add: set_path_def split: jsvalue.splits if_splits) auto
  next
    assume "k = ''amount''"
    with assms(2) show ?thesis
      by (simp add: set_path_def split: jsvalue.splits if_splits) auto
  next
    assume "k = ''date''"
    with assms(2) show ?thesis
      by (simp add: set_path_def split: jsvalue.splits if_splits) auto
  next
    assume "k = ''paymentMode''"
    with assms(2) show ?thesis
      by (simp add: set_path_def split: jsvalue.splits if_splits) auto
  next
    assume "k = ''description''"
    with assms(2) show ?thesis
      by (simp add: set_path_def set_string_path_def split: jsvalue.splits if_splits) auto
  next
    assume "k = ''notes''"
    with assms(2) show ?thesis
      by (simp add: set_path_def set_string_path_def split: jsvalue.splits if_splits) auto
  next
    assume "k = ''billUrl''"
    with assms(2) show ?thesis
      by (simp add: set_path_def set_string_path_def split: jsvalue.splits if_splits) auto
  next
    assume "k = ''billOriginalName''"
    with assms(2) show ?thesis
      by (simp add: set_path_def set_string_path_def split: jsvalue.splits if_splits) auto
  qed
qed

lemma apply_updates_allowed:
  assumes "\<forall>(k, v) \<in> set us. k \<in> set allowedUpdates \<or> k = ''billUrl'' \<or> k = ''billOriginalName''"
    and "apply_updates us e = Some e'"
  shows "oid e' = oid e \<and> status e' = status e \<and> rotaractYear e' = rotaractYear e
         \<and> isArchived e' = isArchived e"
  using assms
proof (induction us arbitrary: e)
  case Nil
  then show ?case by simp
next
  case (Cons kv us)
  obtain k v where kv: "kv = (k, v)" by (cases kv)
  from Cons.prems(2) kv obtain e1 where s: "set_path k v e = Some e1" and r: "apply_updates us e1 = Some e'"
    by (auto split: option.splits)
  from Cons.prems(1) kv have a: "k \<in> set allowedUpdates \<or> k = ''billUrl'' \<or> k = ''billOriginalName''"
    by simp
  from Cons.IH[OF _ r] Cons.prems(1) set_path_allowed[OF a s] show ?case by simp
qed

lemma build_updates_keys:
  "\<forall>(k, v) \<in> set (build_updates body upl). k \<in> set allowedUpdates \<or> k = ''billUrl'' \<or> k = ''billOriginalName''"
  by (auto simp add: build_updates_def split: option.splits)

lemma updateExpense_cases:
  "snd (updateExpense i body upl db) = db
   \<or> (\<exists>e e'. findById i db = Some e \<and> snd (updateExpense i body upl db) = updateById i (\<lambda>_. e') db
        \<and> oid e' = oid e \<and> status e' = status e \<and> rotaractYear e' = rotaractYear e
        \<and> isArchived e' = isArchived e)"
proof (cases "expenseValidation_update body \<and> isValidObjectId i")
  case False
  then show ?thesis by (auto simp add: updateExpense_def)
next
  case True
  show ?thesis
  proof (cases "findById i db")
    case None
    then show ?thesis using True by (simp add: updateExpense_def)
  next
    case (Some e)
    show ?thesis
    proof (cases "apply_updates (build_updates body upl) e")
      case None
      then show ?thesis using True Some by (simp add: updateExpense_def)
    next
      case (Some e')
      from apply_updates_allowed[OF build_updates_keys Some] True \<open>findById i db = Some e\<close> Some
      show ?thesis by (auto simp add: updateExpense_def)
    qed
  qed
qed

lemma map_updateById:
  assumes "\<And>e. oid e = i \<Longrightarrow> e \<in> set db \<Longrightarrow> g (f e) = g e"
  shows "map g (updateById i f db) = map g db"
  using assms by (induction db) auto

lemma set_updateById:
  "e' \<in> set (updateById i f db) \<Longrightarrow> e' \<in> set db \<or> (\<exists>e \<in> set db. oid e = i \<and> e' = f e)"
  by (induction db) (auto split: if_splits)

lemma findById_first:
  "findById i db = Some e \<Longrightarrow> updateById i f db = updateById i (\<lambda>_. f e) db"
  unfolding findById_def by (induction db) (auto split: if_splits)

lemma set_updateById_found:
  assumes "findById i db = Some e" and "e' \<in> set (updateById i f db)"
  shows "e' \<in> set db \<or> e' = f e"
  using assms unfolding findById_def by (induction db) (auto split: if_splits)

lemma transition_cases:
  "snd (transition c user now i db) = db
   \<or> (\<exists>e p. findById i db = Some e \<and> snd (transition c user now i db) = updateById i p db
        \<and> (p = approve_patch user now \<or> (\<exists>r. p = reject_patch user now r)
            \<or> (\<exists>x. p = reimburse_patch user now x)))"
proof (cases c)
  case Approve
  then show ?thesis
    by (auto simp add: transition_def approveExpense_def approve_resume_def save_def
        split: option.splits dest: findById_SomeD)
next
  case (Reject reason)
  then show ?thesis
    by (auto simp add: transition_def rejectExpense_def reject_resume_def save_def
        split: option.splits dest: findById_SomeD)
next
  case (Reimburse reference)
  then show ?thesis
    by (auto simp add: transition_def reimburseExpense_def reimburse_resume_def save_def
        split: option.splits dest: findById_SomeD)
qed

lemma patch_frame [simp]:
  "rotaractYear (approve_patch u t e) = rotaractYear e"
  "rotaractYear (reject_patch u t r e) = rotaractYear e"
  "rotaractYear (reimburse_patch u t x e) = rotaractYear e"
  "status (approve_patch u t e) = ''approved''"
  "status (reject_patch u t r e) = ''rejected''"
  "status (reimburse_patch u t x e) = ''reimbursed''"
  by (simp_all add: approve_patch_def reject_patch_def reimburse_patch_def)

lemma set_deleteById: "set (deleteById i db) \<subseteq> set db"
  by (induction db) auto

lemma deleteExpense_subset: "set (snd (deleteExpense i db)) \<subseteq> set db"
  using set_deleteById by (auto simp add: deleteExpense_def split: option.splits)

lemma closeYear_cases:
  "snd (snd (closeYear user now notes (ar, db))) = db
   \<or> snd (snd (closeYear user now notes (ar, db)))
       = updateMany (\<lambda>e. rotaractYear e = getFinancialYear now) (\<lambda>e. e\<lparr>isArchived := True\<rparr>) db"
  by (simp add: closeYear_def Let_def)

section \<open>Where status paid comes from\<close>

lemma updateMany_frame:
  assumes "e' \<in> set (updateMany flt f db)"
    and "\<And>e. oid (f e) = oid e \<and> status (f e) = status e"
  shows "\<exists>e \<in> set db. oid e = oid e' \<and> status e = status e'"
proof -
  from assms(1) obtain x where x: "x \<in> set db" "e' = (if flt x then f x else x)"
    unfolding updateMany_def by auto
  with assms(2)[of x] have "oid x = oid e' \<and> status x = status e'" by (cases "flt x") simp_all
  with x(1) show ?thesis by blast
qed

lemma handle_paid:
  assumes "e' \<in> set (snd (handle rq st))" and "status e' = ''paid''"
  shows "(\<exists>e \<in> set (snd st). oid e = oid e' \<and> status e = ''paid'') \<or> manual_paid (oid e') rq"
proof -
  obtain ar db where st: "st = (ar, db)" by (cases st)
  show ?thesis
  proof (cases rq)
    case (CreateExpense user now newId events b upl)
    with assms st have m: "e' \<in> set (snd (createExpense user now newId events b upl db))" by simp
    from createExpense_cases[of user now newId events b upl db] m assms(2) st
    show ?thesis by auto
  next
    case (UpdateExpense i body upl)
    with assms st have m: "e' \<in> set (snd (updateExpense i body upl db))" by simp
    from updateExpense_cases[of i body upl db]
    show ?thesis
    proof
      assume "snd (updateExpense i body upl db) = db"
      with m assms(2) st show ?thesis by auto
    next
      assume "\<exists>e e1. findById i db = Some e \<and> snd (updateExpense i body upl db) = updateById i (\<lambda>_. e1) db
        \<and> oid e1 = oid e \<and> status e1 = status e \<and> rotaractYear e1 = rotaractYear e
        \<and> isArchived e1 = isArchived e"
      then obtain e e1 where f: "findById i db = Some e"
        and u: "snd (updateExpense i body upl db) = updateById i (\<lambda>_. e1) db"
        and k: "oid e1 = oid e" "status e1 = status e" by blast
      from set_updateById_found[OF f] m u have "e' \<in> set db \<or> e' = e1" by simp
      then show ?thesis
        using assms(2) k findById_SomeD[OF f] st by auto
    qed
  next
    case (Transition c user now i)
    with assms st have m: "e' \<in> set (snd (transition c user now i db))" by simp
    from transition_cases[of c user now i db]
    show ?thesis
    proof
      assume "snd (transition c user now i db) = db"
      with m assms(2) st show ?thesis by auto
    next
      assume "\<exists>e p. findById i db = Some e \<and> snd (transition c user now i db) = updateById i p db
        \<and> (p = approve_patch user now \<or> (\<exists>r. p = reject_patch user now r)
            \<or> (\<exists>x. p = reimburse_patch user now x))"
      then obtain e p where f: "findById i db = Some e"
        and u: "snd (transition c user now i db) = updateById i p db"
        and p: "p = approve_patch user now \<or> (\<exists>r. p = reject_patch user now r)
            \<or> (\<exists>x. p = reimburse_patch user now x)" by blast
      from set_updateById_found[OF f] m u have "e' \<in> set db \<or> e' = p e" by simp
      moreover from p have "status (p e) \<noteq> ''paid''" by auto
      ultimately show ?thesis using assms(2) st by auto
    qed
  next
    case (DeleteExpense i)
    with assms st deleteExpense_subset[of i db] show ?thesis by auto
  next
    case (CloseYear user now nts)
    with assms st have m: "e' \<in> set (snd (snd (closeYear user now nts (ar, db))))" by simp
    have "\<exists>e \<in> set db. oid e = oid e' \<and> status e = status e'"
    proof (rule disjE[OF closeYear_cases[of user now nts ar db]])
      assume "snd (snd (closeYear user now nts (ar, db))) = db"
      with m show ?thesis by auto
    next
      assume "snd (snd (closeYear user now nts (ar, db)))
       = updateMany (\<lambda>e. rotaractYear e = getFinancialYear now) (\<lambda>e. e\<lparr>isArchived := True\<rparr>) db"
      with m have "e' \<in> set (updateMany (\<lambda>e. rotaractYear e = getFinancialYear now)
          (\<lambda>e. e\<lparr>isArchived := True\<rparr>) db)" by simp
      then show ?thesis by (rule updateMany_frame) simp
    qed
    with assms(2) st show ?thesis by auto
  next
    case (AddManualExpense user now newId users events b upl)
    with assms st have m: "e' \<in> set (snd (addManualExpense user now newId users events b upl db))" by simp
    have d: "or_default (b_status b) ''approved'' = ''paid'' \<Longrightarrow> b_status b = Some ''paid''"
      by (auto simp add: or_default_def split: option.splits if_splits)
    from addManualExpense_cases[of user now newId users events b upl db] m assms(2) st d AddManualExpense
    show ?thesis by auto
  qed
qed

text \<open>
  Claim C9. Status \<open>paid\<close> comes only from the manual creation path: after any run of
  requests, a record with status \<open>paid\<close> had that status before the run or was inserted by
  an addManualExpense request that asked for \<open>paid\<close>; the records a transition request
  writes have status approved, rejected or reimbursed.
\<close>

theorem paid_only_by_manual_creation:
  assumes "e' \<in> set (snd (run rs st))" and "status e' = ''paid''"
  shows "((\<exists>e \<in> set (snd st). oid e = oid e' \<and> status e = ''paid'')
          \<or> (\<exists>rq \<in> set rs. manual_paid (oid e') rq))
       \<and> set (snd (transition c user now i db))
           \<subseteq> set db \<union> {e. status e \<in> {''approved'', ''rejected'', ''reimbursed''}}"
proof
  from assms show "(\<exists>e \<in> set (snd st). oid e = oid e' \<and> status e = ''paid'')
          \<or> (\<exists>rq \<in> set rs. manual_paid (oid e') rq)"
  proof (induction rs arbitrary: st)
    case Nil
    then show ?case by (auto simp add: run_def)
  next
    case (Cons rq rs)
    from Cons.prems have "e' \<in> set (snd (run rs (handle rq st)))" by (simp add: run_def)
    from Cons.IH[OF this Cons.prems(2)]
    show ?case
    proof
      assume "\<exists>e \<in> set (snd (handle rq st)). oid e = oid e' \<and> status e = ''paid''"
      then obtain e where e: "e \<in> set (snd (handle rq st))" "oid e = oid e'" "status e = ''paid''"
        by blast
      from handle_paid[OF e(1,3)] e(2) show ?thesis by auto
    next
      assume "\<exists>rq \<in> set rs. manual_paid (oid e') rq"
      then show ?thesis by auto
    qed
  qed
next
  show "set (snd (transition c user now i db))
           \<subseteq> set db \<union> {e. status e \<in> {''approved'', ''rejected'', ''reimbursed''}}"
  proof
    fix x assume m: "x \<in> set (snd (transition c user now i db))"
    from transition_cases[of c user now i db]
    show "x \<in> set db \<union> {e. status e \<in> {''approved'', ''rejected'', ''reimbursed''}}"
    proof
      assume "snd (transition c user now i db) = db"
      with m show ?thesis by simp
    next
      assume "\<exists>e p. findById i db = Some e \<and> snd (transition c user now i db) = updateById i p db
        \<and> (p = approve_patch user now \<or> (\<exists>r. p = reject_patch user now r)
            \<or> (\<exists>x. p = reimburse_patch user now x))"
      then obtain e p where f: "findById i db = Some e"
        and u: "snd (transition c user now i db) = updateById i p db"
        and p: "p = approve_patch user now \<or> (\<exists>r. p = reject_patch user now r)
            \<or> (\<exists>x. p = reimburse_patch user now x)" by blast
      from set_updateById_found[OF f] m u have "x \<in> set db \<or> x = p e" by simp
      moreover from p have "status (p e) \<in> {''approved'', ''rejected'', ''reimbursed''}" by auto
      ultimately show ?thesis by auto
    qed
  qed
qed

lemma sample_run:
  "run [sample_manual_request] ([], []) = ([], [sample_paid_expense])"
  unfolding run_def sample_manual_request_def
  by (simp add: sample_manual statuses_def new_document_def sample_paid_expense_def sample_expense_def)

theorem paid_only_by_manual_creation_witness:
  "sample_paid_expense \<in> set (snd (run [sample_manual_request] ([], [])))
   \<and> status sample_paid_expense = ''paid''
   \<and> manual_paid (oid sample_paid_expense) sample_manual_request
   \<and> set (snd (transition Approve ''65a1b2c3d4e5f60718293a09'' sample_date
                 ''65a1b2c3d4e5f60718293a4b'' [sample_expense]))
       \<subseteq> set [sample_expense] \<union> {e. status e \<in> {''approved'', ''rejected'', ''reimbursed''}}"
proof -
  have m: "sample_paid_expense \<in> set (snd (run [sample_manual_request] ([], [])))"
    by (simp add: sample_run)
  have s: "status sample_paid_expense = ''paid''" by (simp add: sample_paid_expense_def)
  from paid_only_by_manual_creation[OF m s, of Approve "''65a1b2c3d4e5f60718293a09''" sample_date
      "''65a1b2c3d4e5f60718293a4b''" "[sample_expense]"] m s
  show ?thesis by simp
qed

section \<open>The fiscal-year label is fixed\<close>

text \<open>
  Claim C8. The fiscal-year label of a stored expense does not change: an update request
  leaves \<open>rotaractYear\<close> of every record as it was, whatever keys its body has, and so does
  every transition request; closing a year leaves each record as it was or, for a record of
  the year being closed, sets \<open>isArchived\<close> and changes no other path.
\<close>

theorem rotaractYear_never_changes:
  "map rotaractYear (snd (updateExpense i body upl db)) = map rotaractYear db
   \<and> map rotaractYear (snd (transition c user now j db)) = map rotaractYear db
   \<and> list_all2 (\<lambda>e e'. e' = e \<or> (rotaractYear e = getFinancialYear now \<and> e' = e\<lparr>isArchived := True\<rparr>))
        db (snd (snd (closeYear user now nts (ar, db))))"
proof (intro conjI)
  from updateExpense_cases[of i body upl db]
  show "map rotaractYear (snd (updateExpense i body upl db)) = map rotaractYear db"
  proof
    assume "snd (updateExpense i body upl db) = db"
    then show ?thesis by simp
  next
    assume "\<exists>e e'. findById i db = Some e \<and> snd (updateExpense i body upl db) = updateById i (\<lambda>_. e') db
        \<and> oid e' = oid e \<and> status e' = status e \<and> rotaractYear e' = rotaractYear e
        \<and> isArchived e' = isArchived e"
    then obtain e e1 where f: "findById i db = Some e"
      and u: "snd (updateExpense i body upl db) = updateById i (\<lambda>_. e1) db"
      and k: "rotaractYear e1 = rotaractYear e" by blast
    have "map rotaractYear (updateById i (\<lambda>_. e1) db) = map rotaractYear db"
      using f k unfolding findById_def by (induction db) (auto split: if_splits)
    with u show ?thesis by simp
  qed
next
  from transition_cases[of c user now j db]
  show "map rotaractYear (snd (transition c user now j db)) = map rotaractYear db"
  proof
    assume "snd (transition c user now j db) = db"
    then show ?thesis by simp
  next
    assume "\<exists>e p. findById j db = Some e \<and> snd (transition c user now j db) = updateById j p db
        \<and> (p = approve_patch user now \<or> (\<exists>r. p = reject_patch user now r)
            \<or> (\<exists>x. p = reimburse_patch user now x))"
    then obtain p where u: "snd (transition c user now j db) = updateById j p db"
        and p: "p = approve_patch user now \<or> (\<exists>r. p = reject_patch user now r)
            \<or> (\<exists>x. p = reimburse_patch user now x)" by blast
    from p have "\<And>e. rotaractYear (p e) = rotaractYear e" by auto
    then have "map rotaractYear (updateById j p db) = map rotaractYear db"
      by (intro map_updateById) simp
    with u show ?thesis by simp
  qed
next
  let ?R = "\<lambda>e e'. e' = e \<or> (rotaractYear e = getFinancialYear now \<and> e' = e\<lparr>isArchived := True\<rparr>)"
  have same: "list_all2 ?R db db" by (simp add: list_all2_same)
  have upd: "list_all2 ?R db
      (updateMany (\<lambda>e. rotaractYear e = getFinancialYear now) (\<lambda>e. e\<lparr>isArchived := True\<rparr>) db)"
    unfolding updateMany_def by (induction db) auto
  from closeYear_cases[of user now nts ar db] same upd
  show "list_all2 ?R db (snd (snd (closeYear user now nts (ar, db))))" by auto
qed

theorem rotaractYear_never_changes_witness:
  "snd (updateExpense ''65a1b2c3d4e5f60718293a4b''
          [(''rotaractYear'', JStr ''1999-2000''), (''amount'', JNum 99)] None [sample_expense])
     = [sample_expense\<lparr>amount := 99\<rparr>]
   \<and> map rotaractYear (snd (updateExpense ''65a1b2c3d4e5f60718293a4b''
          [(''rotaractYear'', JStr ''1999-2000''), (''amount'', JNum 99)] None [sample_expense]))
     = [''2025-2026'']
   \<and> snd (snd (closeYear ''65a1b2c3d4e5f60718293a09'' sample_date None ([], [sample_expense])))
     = [sample_expense\<lparr>isArchived := True\<rparr>]"
proof -
  have f: "findById ''65a1b2c3d4e5f60718293a4b'' [sample_expense] = Some sample_expense"
    by (simp add: findById_def sample_expense_def)
  have o: "oid sample_expense = ''65a1b2c3d4e5f60718293a4b''" by (simp add: sample_expense_def)
  have b: "build_updates [(''rotaractYear'', JStr ''1999-2000''), (''amount'', JNum 99)] None
      = [(''amount'', JNum 99)]"
    by (simp add: build_updates_def allowedUpdates_def)
  have v: "expenseValidation_update [(''rotaractYear'', JStr ''1999-2000''), (''amount'', JNum 99)]"
    by (simp add: expenseValidation_update_def)
  have a: "set_path ''amount'' (JNum 99) sample_expense = Some (sample_expense\<lparr>amount := 99\<rparr>)"
    by (simp add: set_path_def)
  have u: "snd (updateExpense ''65a1b2c3d4e5f60718293a4b''
          [(''rotaractYear'', JStr ''1999-2000''), (''amount'', JNum 99)] None [sample_expense])
     = [sample_expense\<lparr>amount := 99\<rparr>]"
    using sample_valid f o by (simp add: updateExpense_def v b a)
  have y: "rotaractYear sample_expense = ''2025-2026''" by (simp add: sample_expense_def)
  have c: "snd (snd (closeYear ''65a1b2c3d4e5f60718293a09'' sample_date None ([], [sample_expense])))
     = [sample_expense\<lparr>isArchived := True\<rparr>]"
    by (simp add: closeYear_def Let_def sample_year updateMany_def y)
  from rotaractYear_never_changes[of "''65a1b2c3d4e5f60718293a4b''"
      "[(''rotaractYear'', JStr ''1999-2000''), (''amount'', JNum 99)]" None "[sample_expense]"
      Approve "''65a1b2c3d4e5f60718293a09''" sample_date "''65a1b2c3d4e5f60718293a4b''" None "[]"]
    u c y
  show ?thesis by simp
qed

section \<open>Rollups\<close>

lemma bit_length_bound: "n < 2 ^ k \<Longrightarrow> bit_length n \<le> k"
proof (induction k arbitrary: n)
  case 0
  then show ?case by (simp add: bit_length.simps)
next
  case (Suc k)
  show ?case
  proof (cases "n \<le> 0")
    case True
    then show ?thesis by (simp add: bit_length.simps)
  next
    case False
    from Suc.prems have "n div 2 < 2 ^ k" by simp
    from Suc.IH[OF this] False show ?thesis by (subst bit_length.simps) simp
  qed
qed

lemma bit_length_pos: "0 < n \<Longrightarrow> 0 < bit_length n"
  by (subst bit_length.simps) simp

lemma round_half_even_int [simp]: "round_half_even (of_int k) = k"
  by (simp add: round_half_even_def)

text \<open>A whole number below \<open>2^53\<close> is a double: rounding leaves it as it is.\<close>

lemma round_double_nat:
  assumes "n < 2 ^ 53"
  shows "round_double (of_nat n) = of_nat n"
proof (cases "n = 0")
  case True
  then show ?thesis by (simp add: round_double_def)
next
  case False
  then have pos: "0 < n" by simp
  let ?b = "bit_length (int n)"
  from assms have "int n < 2 ^ 53" by (metis of_nat_less_iff of_nat_numeral of_nat_power)
  then have b53: "?b \<le> 53" by (rule bit_length_bound)
  have b0: "0 < ?b" using pos by (intro bit_length_pos) simp
  have one: "(1::rat) \<le> of_nat n" using pos by simp
  have e: "binary_exponent (of_nat n) = int ?b - 1"
    using one by (simp add: binary_exponent_def)
  have k: "nat (52 - (int ?b - 1)) = 53 - ?b" by simp
  have u: "ulp (of_nat n) = 1 / 2 ^ (53 - ?b)"
  proof (cases "?b = 53")
    case True
    then show ?thesis unfolding ulp_def e Let_def by simp
  next
    case False
    with b53 have "?b < 53" by simp
    then have "\<not> 52 \<le> int ?b - 1" by simp
    then show ?thesis unfolding ulp_def e Let_def k by simp
  qed
  have q: "(of_nat n :: rat) / ulp (of_nat n) = of_int (int (n * 2 ^ (53 - ?b)))"
    unfolding u by simp
  have "round_double (of_nat n) = ulp (of_nat n) * of_int (round_half_even (of_nat n / ulp (of_nat n)))"
    using pos by (simp add: round_double_def)
  also have "\<dots> = ulp (of_nat n) * of_int (int (n * 2 ^ (53 - ?b)))"
    by (simp only: q round_half_even_int)
  also have "\<dots> = of_nat n" unfolding u by simp
  finally show ?thesis .
qed

lemma dadd_exact:
  assumes "a \<in> \<nat>" and "b \<in> \<nat>" and "a + b < 2 ^ 53"
  shows "dadd a b = a + b"
proof -
  from assms(1,2) obtain m n where mn: "a = of_nat m" "b = of_nat n" by (auto elim!: Nats_cases)
  with assms(3) have "(of_nat (m + n) :: rat) < of_nat (2 ^ 53)" by simp
  then have "m + n < 2 ^ 53" by (simp only: of_nat_less_iff)
  from round_double_nat[OF this] mn show ?thesis by (simp add: dadd_def)
qed

lemma foldl_dadd_exact:
  assumes "list_all (\<lambda>x. x \<in> \<nat>) xs" and "a \<in> \<nat>" and "a + sum_list xs < 2 ^ 53"
  shows "foldl dadd a xs = a + sum_list xs"
  using assms
proof (induction xs arbitrary: a)
  case Nil
  then show ?case by simp
next
  case (Cons x xs)
  from Cons.prems have x: "x \<in> \<nat>" and xs: "list_all (\<lambda>x. x \<in> \<nat>) xs" by simp_all
  from xs have "0 \<le> sum_list xs"
    by (induction xs) (auto elim!: Nats_cases)
  with Cons.prems(3) have "a + x < 2 ^ 53" by simp
  from dadd_exact[OF Cons.prems(2) x this] have d: "dadd a x = a + x" .
  have "a + x \<in> \<nat>" using Cons.prems(2) x by simp
  from Cons.IH[OF xs this] Cons.prems(3) d show ?case by (simp add: add.assoc)
qed

lemma dsum_exact:
  assumes "list_all (\<lambda>x. x \<in> \<nat>) xs" and "sum_list xs < 2 ^ 53"
  shows "dsum xs = sum_list xs"
  using foldl_dadd_exact[OF assms(1), of 0] assms(2) by (simp add: dsum_def)

lemma sum_list_nats:
  fixes xs :: "rat list"
  shows "list_all (\<lambda>x. x \<in> \<nat>) xs \<Longrightarrow> sum_list xs \<in> \<nat> \<and> 0 \<le> sum_list xs"
  by (induction xs) (auto elim!: Nats_cases)

lemma sum_list_filter_split:
  fixes f :: "'a \<Rightarrow> rat"
  shows "sum_list (map f (filter P xs)) + sum_list (map f (filter (\<lambda>x. \<not> P x) xs)) = sum_list (map f xs)"
  by (induction xs) auto

lemma length_filter_split:
  "length (filter P xs) + length (filter (\<lambda>x. \<not> P x) xs) = length xs"
  by (induction xs) auto

lemma group_docs_keys: "set (map fst (group_docs key xs)) = key ` set xs"
proof (induction key xs rule: group_docs.induct)
  case (1 key)
  then show ?case by simp
next
  case (2 key x xs)
  have "key ` set (x # xs) = insert (key x) (key ` set (filter (\<lambda>y. key y \<noteq> key x) xs))"
    by auto
  with 2 show ?case by simp
qed

lemma group_docs_distinct: "distinct (map fst (group_docs key xs))"
proof (induction key xs rule: group_docs.induct)
  case (1 key)
  then show ?case by simp
next
  case (2 key x xs)
  have "key x \<notin> key ` set (filter (\<lambda>y. key y \<noteq> key x) xs)" by auto
  with 2 group_docs_keys[of key "filter (\<lambda>y. key y \<noteq> key x) xs"] show ?case by simp
qed

lemma group_docs_members:
  "(k, ds) \<in> set (group_docs key xs) \<Longrightarrow> ds = filter (\<lambda>y. key y = k) xs"
proof (induction key xs rule: group_docs.induct)
  case (1 key)
  then show ?case by simp
next
  case (2 key x xs)
  from "2.prems" consider "k = key x" "ds = x # filter (\<lambda>y. key y = key x) xs"
    | "(k, ds) \<in> set (group_docs key (filter (\<lambda>y. key y \<noteq> key x) xs))" by auto
  then show ?case
  proof cases
    case 1
    then show ?thesis by simp
  next
    case 2
    then have "k \<in> set (map fst (group_docs key (filter (\<lambda>y. key y \<noteq> key x) xs)))"
      by force
    then have ne: "k \<noteq> key x" unfolding group_docs_keys by auto
    from "2.IH"[OF 2] have "ds = filter (\<lambda>y. key y = k) (filter (\<lambda>y. key y \<noteq> key x) xs)" .
    also have "\<dots> = filter (\<lambda>y. key y = k) xs"
      using ne by (induction xs) auto
    finally show ?thesis using ne by simp
  qed
qed

lemma group_docs_sum:
  fixes f :: "'e \<Rightarrow> rat"
  shows "sum_list (map (\<lambda>g. sum_list (map f (snd g))) (group_docs key xs)) = sum_list (map f xs)"
proof (induction key xs rule: group_docs.induct)
  case (1 key)
  then show ?case by simp
next
  case (2 key x xs)
  from 2 sum_list_filter_split[of f "\<lambda>y. key y = key x" xs] show ?case by simp
qed

lemma group_docs_length:
  "sum_list (map (\<lambda>g. length (snd g)) (group_docs key xs)) = length xs"
proof (induction key xs rule: group_docs.induct)
  case (1 key)
  then show ?case by simp
next
  case (2 key x xs)
  from 2 length_filter_split[of "\<lambda>y. key y = key x" xs] show ?case by simp
qed


lemma group_sum_gid: "map gid (group_sum key xs) = map fst (group_docs key xs)"
  by (simp add: group_sum_def case_prod_beta comp_def)

lemma group_sum_count: "sum_list (map gcount (group_sum key xs)) = length xs"
  using group_docs_length[of key xs]
  by (simp add: group_sum_def case_prod_beta comp_def)

lemma group_sum_row:
  assumes "g \<in> set (group_sum key xs)"
  shows "gid g \<in> key ` set xs
         \<and> gtotal g = dsum (map amount (filter (\<lambda>e. key e = gid g) xs))
         \<and> gcount g = length (filter (\<lambda>e. key e = gid g) xs)"
proof -
  from assms obtain p where p: "p \<in> set (group_docs key xs)"
    and g: "g = \<lparr>gid = fst p, gtotal = dsum (map amount (snd p)), gcount = length (snd p)\<rparr>"
    unfolding group_sum_def by (auto simp add: case_prod_beta)
  from p have "(fst p, snd p) \<in> set (group_docs key xs)" by simp
  from group_docs_members[OF this] have ds: "snd p = filter (\<lambda>y. key y = fst p) xs" .
  from p have "fst p \<in> set (map fst (group_docs key xs))" by simp
  then have "fst p \<in> key ` set xs" unfolding group_docs_keys .
  with g ds show ?thesis by simp
qed

lemma sum_list_filter_le:
  fixes xs :: "'a list" and f :: "'a \<Rightarrow> rat"
  assumes "list_all (\<lambda>x. f x \<in> \<nat>) xs"
  shows "sum_list (map f (filter P xs)) \<le> sum_list (map f xs)"
  using assms by (induction xs) (auto elim!: Nats_cases)

lemma exact_group_totals:
  assumes "list_all (\<lambda>e. amount e \<in> \<nat>) xs" and "sum_list (map amount xs) < 2 ^ 53"
  shows "map gtotal (group_sum key xs) = map (\<lambda>g. sum_list (map amount (snd g))) (group_docs key xs)"
proof -
  have "dsum (map amount (snd p)) = sum_list (map amount (snd p))"
    if p: "p \<in> set (group_docs key xs)" for p
  proof -
    from p have "(fst p, snd p) \<in> set (group_docs key xs)" by simp
    from group_docs_members[OF this] have ds: "snd p = filter (\<lambda>y. key y = fst p) xs" .
    have n: "list_all (\<lambda>x. x \<in> \<nat>) (map amount (snd p))"
      using assms(1) unfolding ds list_all_iff by auto
    have "sum_list (map amount (snd p)) \<le> sum_list (map amount xs)"
      unfolding ds by (rule sum_list_filter_le[OF assms(1)])
    with assms(2) have "sum_list (map amount (snd p)) < 2 ^ 53" by simp
    from dsum_exact[OF n this] show ?thesis .
  qed
  then show ?thesis by (simp add: group_sum_def case_prod_beta)
qed

lemma exact_totals:
  assumes "list_all (\<lambda>e. amount e \<in> \<nat>) xs" and "sum_list (map amount xs) < 2 ^ 53"
  shows "sum_list (map gtotal (group_sum key xs)) = sum_list (map amount xs)"
    and "totalExpenses (calculate_totals (group_sum key xs)) = sum_list (map amount xs)"
proof -
  show s: "sum_list (map gtotal (group_sum key xs)) = sum_list (map amount xs)"
    unfolding exact_group_totals[OF assms] by (rule group_docs_sum)
  have n: "list_all (\<lambda>x. x \<in> \<nat>) (map gtotal (group_sum key xs))"
    unfolding exact_group_totals[OF assms] list_all_iff
  proof
    fix x assume "x \<in> set (map (\<lambda>g. sum_list (map amount (snd g))) (group_docs key xs))"
    then obtain p where p: "p \<in> set (group_docs key xs)" and x: "x = sum_list (map amount (snd p))"
      by auto
    from p have "(fst p, snd p) \<in> set (group_docs key xs)" by simp
    from group_docs_members[OF this] have ds: "snd p = filter (\<lambda>y. key y = fst p) xs" .
    have "list_all (\<lambda>x. x \<in> \<nat>) (map amount (snd p))"
      using assms(1) unfolding ds list_all_iff by auto
    from sum_list_nats[OF this] x show "x \<in> \<nat>" by simp
  qed
  have "totalExpenses (calculate_totals (group_sum key xs)) = dsum (map gtotal (group_sum key xs))"
    by (simp add: calculate_totals_def dsum_def foldl_map)
  also have "\<dots> = sum_list (map gtotal (group_sum key xs))"
    using n assms(2) unfolding s[symmetric] by (rule dsum_exact)
  finally show "totalExpenses (calculate_totals (group_sum key xs)) = sum_list (map amount xs)"
    using s by simp
qed

text \<open>
  Claim C6, amended. The status groups partition the records of the year: the group keys
  are the distinct statuses that occur, count and total of a group are the number and the
  sum of exactly the records with its status, and the counts add up to the number of
  records. The totals are sums of doubles: when the amounts are whole numbers and their sum
  is below \<open>2^53\<close>, the group totals, and \<open>totalExpenses\<close> folded from them, add up to exactly
  the sum of all amounts of the year.
\<close>

theorem status_rollup_partition:
  "distinct (map gid (expensesByStatus year db))
   \<and> set (map gid (expensesByStatus year db)) = status ` set (filter (\<lambda>e. rotaractYear e = year) db)
   \<and> list_all (\<lambda>g. gcount g = length (with_status year (gid g) db)
                    \<and> gtotal g = dsum (map amount (with_status year (gid g) db)))
        (expensesByStatus year db)
   \<and> sum_list (map gcount (expensesByStatus year db))
       = length (filter (\<lambda>e. rotaractYear e = year) db)
   \<and> fs_totals (getFinancialSummary q now users events db)
       = calculate_totals (expensesByStatus (report_year q now) db)
   \<and> (list_all (\<lambda>e. amount e \<in> \<nat>) (filter (\<lambda>e. rotaractYear e = year) db)
        \<and> sum_list (map amount (filter (\<lambda>e. rotaractYear e = year) db)) < 2 ^ 53
       \<longrightarrow> sum_list (map gtotal (expensesByStatus year db))
             = sum_list (map amount (filter (\<lambda>e. rotaractYear e = year) db))
           \<and> totalExpenses (calculate_totals (expensesByStatus year db))
             = sum_list (map amount (filter (\<lambda>e. rotaractYear e = year) db)))"
proof (intro conjI impI)
  let ?Y = "filter (\<lambda>e. rotaractYear e = year) db"
  show "distinct (map gid (expensesByStatus year db))"
    by (simp add: expensesByStatus_def group_sum_gid group_docs_distinct)
  show "set (map gid (expensesByStatus year db)) = status ` set ?Y"
    by (simp only: expensesByStatus_def group_sum_gid group_docs_keys)
  have w: "with_status year s db = filter (\<lambda>e. status e = s) ?Y" for s
    by (simp add: with_status_def conj_commute)
  show "list_all (\<lambda>g. gcount g = length (with_status year (gid g) db)
                    \<and> gtotal g = dsum (map amount (with_status year (gid g) db)))
        (expensesByStatus year db)"
    unfolding list_all_iff w expensesByStatus_def using group_sum_row[of _ status ?Y] by blast
  show "sum_list (map gcount (expensesByStatus year db)) = length ?Y"
    by (simp add: expensesByStatus_def group_sum_count)
  show "fs_totals (getFinancialSummary q now users events db)
       = calculate_totals (expensesByStatus (report_year q now) db)"
    by (simp add: getFinancialSummary_def Let_def)
next
  assume a: "list_all (\<lambda>e. amount e \<in> \<nat>) (filter (\<lambda>e. rotaractYear e = year) db)
        \<and> sum_list (map amount (filter (\<lambda>e. rotaractYear e = year) db)) < 2 ^ 53"
  then show "sum_list (map gtotal (expensesByStatus year db))
             = sum_list (map amount (filter (\<lambda>e. rotaractYear e = year) db))"
    unfolding expensesByStatus_def by (intro exact_totals(1)) simp_all
next
  assume a: "list_all (\<lambda>e. amount e \<in> \<nat>) (filter (\<lambda>e. rotaractYear e = year) db)
        \<and> sum_list (map amount (filter (\<lambda>e. rotaractYear e = year) db)) < 2 ^ 53"
  then show "totalExpenses (calculate_totals (expensesByStatus year db))
             = sum_list (map amount (filter (\<lambda>e. rotaractYear e = year) db))"
    unfolding expensesByStatus_def by (intro exact_totals(2)) simp_all
qed

theorem status_rollup_partition_witness:
  "list_all (\<lambda>e. amount e \<in> \<nat>)
      (filter (\<lambda>e. rotaractYear e = ''2025-2026'')
         [sample_expense, sample_expense\<lparr>status := ''approved'', amount := 250\<rparr>,
          sample_expense\<lparr>amount := 40\<rparr>])
   \<and> sum_list (map amount (filter (\<lambda>e. rotaractYear e = ''2025-2026'')
         [sample_expense, sample_expense\<lparr>status := ''approved'', amount := 250\<rparr>,
          sample_expense\<lparr>amount := 40\<rparr>])) = 1790
   \<and> totalExpenses (calculate_totals (expensesByStatus ''2025-2026''
         [sample_expense, sample_expense\<lparr>status := ''approved'', amount := 250\<rparr>,
          sample_expense\<lparr>amount := 40\<rparr>])) = 1790
   \<and> map gid (expensesByStatus ''2025-2026''
         [sample_expense, sample_expense\<lparr>status := ''approved'', amount := 250\<rparr>,
          sample_expense\<lparr>amount := 40\<rparr>]) = [''pending'', ''approved'']"
proof -
  let ?db = "[sample_expense, sample_expense\<lparr>status := ''approved'', amount := 250\<rparr>,
          sample_expense\<lparr>amount := 40\<rparr>]"
  have y: "filter (\<lambda>e. rotaractYear e = ''2025-2026'') ?db = ?db"
    by (simp add: sample_expense_def)
  have n: "list_all (\<lambda>e. amount e \<in> \<nat>) (filter (\<lambda>e. rotaractYear e = ''2025-2026'') ?db)"
    unfolding y by (simp add: sample_expense_def)
  have s: "sum_list (map amount (filter (\<lambda>e. rotaractYear e = ''2025-2026'') ?db)) = 1790"
    unfolding y by (simp add: sample_expense_def)
  have k: "map gid (expensesByStatus ''2025-2026'' ?db) = [''pending'', ''approved'']"
    by (simp add: expensesByStatus_def group_sum_gid sample_expense_def)
  from status_rollup_partition[of "''2025-2026''" ?db None sample_date "[]" "[]"] n s k
  show ?thesis by simp
qed

lemma double_steps:
  "dadd 0 9007199254740992 = 9007199254740992"
  "dadd 9007199254740992 1 = 9007199254740992"
  by code_simp+

lemma double_one: "dadd 0 1 = 1"
  by (simp add: dadd_exact)

theorem status_rollup_counterexample:
  "map gtotal (expensesByStatus ''2025-2026''
      [sample_expense\<lparr>amount := 9007199254740992\<rparr>,
       sample_expense\<lparr>status := ''approved'', amount := 1\<rparr>]) = [9007199254740992, 1]
   \<and> totalExpenses (calculate_totals (expensesByStatus ''2025-2026''
      [sample_expense\<lparr>amount := 9007199254740992\<rparr>,
       sample_expense\<lparr>status := ''approved'', amount := 1\<rparr>])) = 9007199254740992
   \<and> sum_list (map amount (filter (\<lambda>e. rotaractYear e = ''2025-2026'')
      [sample_expense\<lparr>amount := 9007199254740992\<rparr>,
       sample_expense\<lparr>status := ''approved'', amount := 1\<rparr>])) = 9007199254740993
   \<and> totalExpenses (calculate_totals (expensesByStatus ''2025-2026''
      [sample_expense\<lparr>amount := 9007199254740992\<rparr>,
       sample_expense\<lparr>status := ''approved'', amount := 1\<rparr>]))
      \<noteq> sum_list (map amount (filter (\<lambda>e. rotaractYear e = ''2025-2026'')
      [sample_expense\<lparr>amount := 9007199254740992\<rparr>,
       sample_expense\<lparr>status := ''approved'', amount := 1\<rparr>]))"
proof -
  have g: "expensesByStatus ''2025-2026''
      [sample_expense\<lparr>amount := 9007199254740992\<rparr>,
       sample_expense\<lparr>status := ''approved'', amount := 1\<rparr>]
     = [\<lparr>gid = ''pending'', gtotal = 9007199254740992, gcount = 1\<rparr>,
        \<lparr>gid = ''approved'', gtotal = 1, gcount = 1\<rparr>]"
    by (simp add: expensesByStatus_def group_sum_def sample_expense_def dsum_def double_steps double_one)
  show ?thesis
    unfolding g by (simp add: calculate_totals_def double_steps double_one sample_expense_def)
qed

section \<open>The order of the rollups\<close>

lemma total_descending_sort: "total_descending (sort_total_desc gs)"
proof -
  have "sorted (map (\<lambda>g. - gtotal g) (sort_key (\<lambda>g. - gtotal g) gs))"
    by (rule sorted_sort_key)
  then show ?thesis
    by (simp add: total_descending_def sort_total_desc_def sorted_map)
qed

lemma total_descending_take: "total_descending gs \<Longrightarrow> total_descending (take n gs)"
  by (simp add: total_descending_def sorted_wrt_take)

lemma lookup_unwind_subset: "set (map fst (lookup_unwind l i coll gs)) \<subseteq> set gs"
  by (auto simp add: lookup_unwind_def)

lemma lookup_unwind_Cons:
  "map fst (lookup_unwind l i coll (g # gs))
     = replicate (length (filter (\<lambda>d. i d = l g) coll)) g @ map fst (lookup_unwind l i coll gs)"
  by (simp add: lookup_unwind_def comp_def map_replicate_const)

lemma lookup_unwind_sorted:
  assumes "sorted_wrt R gs" and "\<And>x. R x x"
  shows "sorted_wrt R (map fst (lookup_unwind l i coll gs))"
  using assms(1)
proof (induction gs)
  case Nil
  then show ?case by (simp add: lookup_unwind_def)
next
  case (Cons g gs)
  have r: "sorted_wrt R (replicate n g)" for n
    using assms(2) by (induction n) auto
  from Cons.prems have "\<forall>y \<in> set gs. R g y" and "sorted_wrt R gs" by simp_all
  with Cons.IH lookup_unwind_subset[of l i coll gs] r show ?case
    unfolding lookup_unwind_Cons by (auto simp add: sorted_wrt_append)
qed

lemma total_descending_lookup:
  "total_descending gs \<Longrightarrow> total_descending (map fst (lookup_unwind l i coll gs))"
  unfolding total_descending_def by (rule lookup_unwind_sorted) simp_all

lemma chronological_sort:
  "chronological (sort_key (\<lambda>g. (snd (gid g), fst (gid g))) gs)"
proof -
  have "sorted (map (\<lambda>g. (snd (gid g), fst (gid g))) (sort_key (\<lambda>g. (snd (gid g), fst (gid g))) gs))"
    by (rule sorted_sort_key)
  then have "sorted_wrt (\<lambda>a b. (snd (gid a), fst (gid a)) \<le> (snd (gid b), fst (gid b)))
      (sort_key (\<lambda>g. (snd (gid g), fst (gid g))) gs)"
    by (simp add: sorted_map)
  then show ?thesis
    unfolding chronological_def
    by (rule sorted_wrt_mono_rel[rotated]) auto
qed

text \<open>
  Claim C5, amended. The category rollup, the event rollup and the member rollup of the top
  contributors are sorted by total descending; the month rollup is sorted by year, then by
  month. No rollup orders equal totals by group key, and the status rollup is not sorted.
\<close>

theorem rollups_sorted:
  "total_descending (expensesByCategory year db)
   \<and> total_descending (map fst (expensesByEvent year events db))
   \<and> total_descending (map fst (topContributors year users db))
   \<and> chronological (expensesByMonth year db)"
  by (simp add: expensesByCategory_def expensesByEvent_def topContributors_def expensesByMonth_def
      total_descending_sort total_descending_take total_descending_lookup chronological_sort)

theorem rollup_order_counterexample:
  "expensesByCategory ''2025-2026''
       [sample_expense\<lparr>amount := 50\<rparr>, sample_expense\<lparr>category := ''donation'', amount := 50\<rparr>]
     = [\<lparr>gid = ''travel_expense'', gtotal = 50, gcount = 1\<rparr>,
        \<lparr>gid = ''donation'', gtotal = 50, gcount = 1\<rparr>]
   \<and> \<not> spec_order (expensesByCategory ''2025-2026''
       [sample_expense\<lparr>amount := 50\<rparr>, sample_expense\<lparr>category := ''donation'', amount := 50\<rparr>])
   \<and> expensesByStatus ''2025-2026''
       [sample_expense\<lparr>amount := 10\<rparr>, sample_expense\<lparr>status := ''approved'', amount := 100\<rparr>]
     = [\<lparr>gid = ''pending'', gtotal = 10, gcount = 1\<rparr>,
        \<lparr>gid = ''approved'', gtotal = 100, gcount = 1\<rparr>]
   \<and> \<not> spec_order (expensesByStatus ''2025-2026''
       [sample_expense\<lparr>amount := 10\<rparr>, sample_expense\<lparr>status := ''approved'', amount := 100\<rparr>])"
proof -
  have d: "dadd 0 50 = 50" "dadd 0 10 = 10" "dadd 0 100 = 100"
    by (simp_all add: dadd_exact)
  have c: "expensesByCategory ''2025-2026''
       [sample_expense\<lparr>amount := 50\<rparr>, sample_expense\<lparr>category := ''donation'', amount := 50\<rparr>]
     = [\<lparr>gid = ''travel_expense'', gtotal = 50, gcount = 1\<rparr>,
        \<lparr>gid = ''donation'', gtotal = 50, gcount = 1\<rparr>]"
    by (simp add: expensesByCategory_def group_sum_def sort_total_desc_def sample_expense_def dsum_def d)
  have s: "expensesByStatus ''2025-2026''
       [sample_expense\<lparr>amount := 10\<rparr>, sample_expense\<lparr>status := ''approved'', amount := 100\<rparr>]
     = [\<lparr>gid = ''pending'', gtotal = 10, gcount = 1\<rparr>,
        \<lparr>gid = ''approved'', gtotal = 100, gcount = 1\<rparr>]"
    by (simp add: expensesByStatus_def group_sum_def sample_expense_def dsum_def d)
  have o: "\<not> ''travel_expense'' \<le> ''donation''"
    by (simp add: less_eq_char_def)
  show ?thesis unfolding c s using o by (simp add: spec_order_def)
qed

section \<open>The contributor views\<close>

lemma insort_key_map:
  "map p (insort_key (\<lambda>x. h (p x)) x xs) = insort_key h (p x) (map p xs)"
  by (induction xs) simp_all

lemma sort_key_map:
  "map p (sort_key (\<lambda>x. h (p x)) xs) = sort_key h (map p xs)"
  by (induction xs) (simp_all add: insort_key_map)

lemma lookup_unwind_filter:
  assumes "distinct (map i coll)"
  shows "map fst (lookup_unwind l i coll gs) = filter (\<lambda>g. l g \<in> i ` set coll) gs"
proof -
  have one: "length (filter (\<lambda>d. i d = m) coll) = (if m \<in> i ` set coll then 1 else 0)" for m
    using assms
  proof (induction coll)
    case Nil
    then show ?case by simp
  next
    case (Cons d ds)
    show ?case
    proof (cases "i d = m")
      case True
      with Cons.prems have "filter (\<lambda>d. i d = m) ds = []"
        by (auto simp add: filter_empty_conv image_iff)
      with True show ?thesis by simp
    next
      case False
      with Cons show ?thesis by auto
    qed
  qed
  show ?thesis
  proof (induction gs)
    case Nil
    then show ?case by (simp add: lookup_unwind_def)
  next
    case (Cons g gs)
    then show ?case unfolding lookup_unwind_Cons by (simp add: one)
  qed
qed

lemma counted_pipeline:
  "filter (\<lambda>e. rotaractYear e = year \<and> status e \<in> set contributing) db = counted year db"
  by (simp add: counted_def contributing_def disj_commute disj_left_commute)

lemma member_rows_keys: "map fst (member_rows recs) = map fst (group_docs member_ref recs)"
  by (simp add: member_rows_def comp_def)

lemma member_rows_row:
  assumes "r \<in> set (member_rows (counted year db))"
  shows "fst r \<in> member_ref ` set (counted year db)
         \<and> fst (snd r) = contribution year db (fst r)
         \<and> snd (snd r) = contributions year db (fst r)"
proof -
  from assms obtain g where g: "g \<in> set (group_docs member_ref (counted year db))"
    and r: "r = (fst g, dsum (map amount (snd g)), length (snd g))"
    unfolding member_rows_def by auto
  from g have "(fst g, snd g) \<in> set (group_docs member_ref (counted year db))" by simp
  from group_docs_members[OF this]
  have ds: "snd g = filter (\<lambda>y. member_ref y = fst g) (counted year db)" .
  from g have "fst g \<in> set (map fst (group_docs member_ref (counted year db)))" by simp
  then have "fst g \<in> member_ref ` set (counted year db)" unfolding group_docs_keys .
  with r ds show ?thesis by (simp add: contribution_def contributions_def)
qed

lemma top_view_top_cut: "top_view n year db (top_cut n year db)"
proof -
  let ?recs = "counted year db"
  let ?R = "member_rows ?recs"
  let ?f = "\<lambda>r :: objectid \<times> rat \<times> nat. - fst (snd r)"
  let ?S = "sort_key ?f ?R"
  let ?T = "take n ?S"
  have d0: "distinct (map fst ?R)" by (simp add: member_rows_keys group_docs_distinct)
  have k0: "set (map fst ?R) = member_ref ` set ?recs" by (simp only: member_rows_keys group_docs_keys)
  have len0: "length ?R = card (member_ref ` set ?recs)"
    using distinct_card[OF d0] k0 by simp
  have setS: "set ?S = set ?R" by simp
  have dS: "distinct (map fst ?S)"
    using d0 by (simp add: distinct_map)
  have len: "length ?T = min n (card (member_ref ` set ?recs))"
    using len0 by (simp add: min.commute)
  have dT: "distinct (map fst ?T)"
    using dS by (simp add: take_map[symmetric] del: take_map)
  have sub: "set ?T \<subseteq> set ?R" using set_take_subset[of n ?S] by simp
  have rows: "list_all (\<lambda>r. fst r \<in> member_ref ` set ?recs
                       \<and> fst (snd r) = contribution year db (fst r)
                       \<and> snd (snd r) = contributions year db (fst r)) ?T"
    unfolding list_all_iff using sub member_rows_row[of _ year db] by blast
  have sS: "sorted_wrt (\<lambda>a b. ?f a \<le> ?f b) ?S"
    using sorted_sort_key[of ?f ?R] by (simp add: sorted_map)
  then have sT: "sorted_wrt (\<lambda>a b. fst (snd a) \<ge> fst (snd b)) ?T"
    using sorted_wrt_take[OF sS, of n] by simp
  from sS have "sorted_wrt (\<lambda>a b. ?f a \<le> ?f b) (?T @ drop n ?S)" by simp
  then have cut: "\<forall>x \<in> set ?T. \<forall>y \<in> set (drop n ?S). fst (snd y) \<le> fst (snd x)"
    unfolding sorted_wrt_append by simp
  have top: "list_all (\<lambda>e. member_ref e \<in> fst ` set ?T
                       \<or> list_all (\<lambda>r. contribution year db (member_ref e) \<le> fst (snd r)) ?T) ?recs"
    unfolding list_all_iff
  proof (intro ballI)
    fix e assume e: "e \<in> set ?recs"
    then have "member_ref e \<in> set (map fst ?R)" unfolding k0 by simp
    then obtain r where r: "r \<in> set ?R" "fst r = member_ref e" by auto
    from member_rows_row[OF r(1)] r(2)
    have t: "fst (snd r) = contribution year db (member_ref e)" by simp
    from r(1) setS have "r \<in> set (?T @ drop n ?S)" by simp
    then have "r \<in> set ?T \<or> r \<in> set (drop n ?S)" by (simp only: set_append Un_iff)
    then show "member_ref e \<in> fst ` set ?T
        \<or> (\<forall>x \<in> set ?T. contribution year db (member_ref e) \<le> fst (snd x))"
    proof
      assume "r \<in> set ?T"
      with r(2) show ?thesis by force
    next
      assume "r \<in> set (drop n ?S)"
      with cut have "\<forall>x \<in> set ?T. fst (snd r) \<le> fst (snd x)" by blast
      with t show ?thesis by simp
    qed
  qed
  from len dT rows sT top show ?thesis unfolding top_view_def top_cut_def by simp
qed

lemma add_rank_rank: "map rank (add_rank items) = [1 ..< Suc (length items)]"
proof -
  have "map rank (add_rank items) = map (\<lambda>p. Suc (snd p)) (zip items [0 ..< length items])"
    by (simp add: add_rank_def case_prod_beta comp_def)
  also have "\<dots> = map Suc (map snd (zip items [0 ..< length items]))"
    by (simp only: map_map comp_def)
  also have "\<dots> = map Suc [0 ..< length items]" by simp
  also have "\<dots> = [1 ..< Suc (length items)]" by (simp add: map_Suc_upt)
  finally show ?thesis .
qed

lemma add_rank_item: "map item (add_rank items) = items"
proof -
  have "map item (add_rank items) = map fst (zip items [0 ..< length items])"
    by (simp add: add_rank_def case_prod_beta comp_def)
  then show ?thesis by simp
qed

lemma rollup_rows: "map rollup_row (group_sum member_ref recs) = member_rows recs"
  by (simp add: group_sum_def member_rows_def rollup_row_def case_prod_beta comp_def)

lemma board_rows:
  "map (\<lambda>g. (bg_id g, bg_totalContribution g, bg_expenseCount g)) (group_board recs) = member_rows recs"
  by (simp add: group_board_def member_rows_def case_prod_beta comp_def)

lemma top_rollup_rows:
  "map rollup_row (take n (sort_total_desc (group_sum member_ref recs)))
     = take n (sort_key (\<lambda>r. - fst (snd r)) (member_rows recs))"
proof -
  have k: "(\<lambda>g. - gtotal g) = (\<lambda>g. - fst (snd (rollup_row g)))"
    by (simp add: rollup_row_def)
  have "map rollup_row (sort_total_desc (group_sum member_ref recs))
      = sort_key (\<lambda>r. - fst (snd r)) (map rollup_row (group_sum member_ref recs))"
    unfolding sort_total_desc_def k
    using sort_key_map[where p = rollup_row and h = "\<lambda>r. - fst (snd r)"] .
  then have "take n (map rollup_row (sort_total_desc (group_sum member_ref recs)))
      = take n (sort_key (\<lambda>r. - fst (snd r)) (map rollup_row (group_sum member_ref recs)))"
    by (rule arg_cong)
  then show ?thesis by (simp only: take_map rollup_rows)
qed

lemma top_board_rows:
  "map (\<lambda>g. (bg_id g, bg_totalContribution g, bg_expenseCount g))
       (take n (sort_key (\<lambda>g. - bg_totalContribution g) (group_board recs)))
     = take n (sort_key (\<lambda>r. - fst (snd r)) (member_rows recs))"
proof -
  let ?p = "\<lambda>g. (bg_id g, bg_totalContribution g, bg_expenseCount g)"
  have k: "(\<lambda>g. - bg_totalContribution g) = (\<lambda>g. - fst (snd (?p g)))"
    by simp
  have "map ?p (sort_key (\<lambda>g. - bg_totalContribution g) (group_board recs))
      = sort_key (\<lambda>r. - fst (snd r)) (map ?p (group_board recs))"
    by (subst k) (rule sort_key_map[where p = ?p and h = "\<lambda>r. - fst (snd r)"])
  then have "take n (map ?p (sort_key (\<lambda>g. - bg_totalContribution g) (group_board recs)))
      = take n (sort_key (\<lambda>r. - fst (snd r)) (map ?p (group_board recs)))"
    by (rule arg_cong)
  then show ?thesis by (simp only: take_map board_rows)
qed

lemma length_add_rank [simp]: "length (add_rank items) = length items"
  by (simp add: add_rank_def)


lemma topContributors_rows:
  assumes "distinct (map uid users)"
  shows "map (\<lambda>p. rollup_row (fst p)) (topContributors year users db)
     = filter (\<lambda>r. fst r \<in> uid ` set users) (top_cut 10 year db)"
proof -
  let ?T = "take 10 (sort_total_desc (group_sum member_ref (counted year db)))"
  have "map (\<lambda>p. rollup_row (fst p)) (topContributors year users db)
      = map rollup_row (map fst (topContributors year users db))"
    by (simp add: comp_def)
  also have "\<dots> = map rollup_row (filter (\<lambda>g. gid g \<in> uid ` set users) ?T)"
    by (simp only: topContributors_def counted_pipeline lookup_unwind_filter[OF assms])
  also have "\<dots> = filter (\<lambda>r. fst r \<in> uid ` set users) (map rollup_row ?T)"
    by (simp add: filter_map comp_def rollup_row_def)
  finally show ?thesis by (simp only: top_rollup_rows top_cut_def)
qed

lemma leaderboard_rows:
  assumes "distinct (map uid users)"
  shows "map ranked_row (getLeaderboard q now users db)
     = filter (\<lambda>r. fst r \<in> uid ` set users) (top_cut 20 (report_year q now) db)"
proof -
  let ?year = "report_year q now"
  let ?p = "\<lambda>g. (bg_id g, bg_totalContribution g, bg_expenseCount g)"
  let ?T = "take 20 (sort_key (\<lambda>g. - bg_totalContribution g) (group_board (counted ?year db)))"
  let ?LU = "lookup_unwind bg_id uid users ?T"
  have "map ranked_row (getLeaderboard q now users db)
      = map (\<lambda>it. (lb_id it, totalContribution it, expenseCount it)) (map item (add_rank (leaderboard ?year users db)))"
    by (simp add: getLeaderboard_def ranked_row_def comp_def)
  also have "\<dots> = map (\<lambda>it. (lb_id it, totalContribution it, expenseCount it)) (map project_board ?LU)"
    by (simp only: add_rank_item leaderboard_def counted_pipeline)
  also have "\<dots> = map ?p (map fst ?LU)"
    by (simp add: project_board_def case_prod_beta comp_def)
  also have "\<dots> = map ?p (filter (\<lambda>g. bg_id g \<in> uid ` set users) ?T)"
    by (simp only: lookup_unwind_filter[OF assms])
  also have "\<dots> = filter (\<lambda>r. fst r \<in> uid ` set users) (map ?p ?T)"
    by (simp add: filter_map comp_def)
  finally show ?thesis by (simp only: top_board_rows top_cut_def)
qed

lemma top_cut_members:
  assumes "members_exist users db"
  shows "filter (\<lambda>r. fst r \<in> uid ` set users) (top_cut n year db) = top_cut n year db"
proof -
  from top_view_top_cut[of n year db]
  have "\<forall>r \<in> set (top_cut n year db). fst r \<in> member_ref ` set (counted year db)"
    unfolding top_view_def list_all_iff by blast
  moreover from assms have "member_ref ` set (counted year db) \<subseteq> uid ` set users"
    by (auto simp add: members_exist_def counted_def list_all_iff)
  ultimately show ?thesis by (auto simp add: filter_id_conv)
qed

text \<open>
  Claim C7, amended. The member rollup of the records with status approved, reimbursed or
  paid, in descending order of total and cut to 10 rows (20 for the leaderboard), is a
  top-10 (top-20) view. The top contributors of the financial summary and the leaderboard
  are the rows of that cut whose member is a stored user: the join with the users comes
  after the cut and drops the others. The rank of a leaderboard entry is its position,
  counted from 1, in the list that is returned; when every expense refers to a stored user
  nothing is dropped and this is the position after the cut.
\<close>

theorem top_contributors_view:
  assumes "distinct (map uid users)"
  shows "top_view 10 year db (top_cut 10 year db)
       \<and> map (\<lambda>p. rollup_row (fst p)) (topContributors year users db)
           = filter (\<lambda>r. fst r \<in> uid ` set users) (top_cut 10 year db)
       \<and> top_view 20 (report_year q now) db (top_cut 20 (report_year q now) db)
       \<and> map ranked_row (getLeaderboard q now users db)
           = filter (\<lambda>r. fst r \<in> uid ` set users) (top_cut 20 (report_year q now) db)
       \<and> map rank (getLeaderboard q now users db)
           = [1 ..< Suc (length (getLeaderboard q now users db))]
       \<and> (members_exist users db \<longrightarrow>
            map (\<lambda>p. rollup_row (fst p)) (topContributors year users db) = top_cut 10 year db
            \<and> map ranked_row (getLeaderboard q now users db) = top_cut 20 (report_year q now) db)"
  using topContributors_rows[OF assms, of year db] leaderboard_rows[OF assms, of q now db]
    top_view_top_cut[of 10 year db] top_view_top_cut[of 20 "report_year q now" db]
    top_cut_members[of users db 10 year] top_cut_members[of users db 20 "report_year q now"]
  by (simp add: getLeaderboard_def add_rank_rank)

lemma top_cut_take: "n \<le> m \<Longrightarrow> top_cut n year db = take n (top_cut m year db)"
  by (simp add: top_cut_def min_def)

lemma upt22: "[0 ..< 22] = [0, 1, 2, 3, 4, 5, 6, 7, 8, 9, 10, 11, 12, 13, 14, 15, 16, 17, 18, 19, 20, 21]"
  by code_simp

lemma sample_cut20:
  "top_cut 20 ''2025-2026'' sample_ledger
     = (member_id 0, 600, 2)
       # map (\<lambda>k. (member_id k, of_nat (100 + 10 * k), 1))
           [21, 20, 19, 18, 17, 16, 15, 14, 13, 12, 11, 10, 9, 8, 7, 6, 5, 4, 3]"
  unfolding top_cut_def sample_ledger_def upt22
  by (simp add: member_rows_def counted_def sample_claim_def sample_expense_def
      member_id_def two_digits_def dsum_def dadd_exact)

lemma sample_members_distinct: "distinct (map uid sample_members)"
  by code_simp

lemma sample_members_exist: "members_exist sample_members sample_ledger"
  by code_simp

lemma sample_report_year: "report_year None sample_date = ''2025-2026''"
  by (simp add: report_year_def falsy_def sample_year)


lemma sample_cut10:
  "top_cut 10 ''2025-2026'' sample_ledger
     = (member_id 0, 600, 2)
       # map (\<lambda>k. (member_id k, of_nat (100 + 10 * k), 1)) [21, 20, 19, 18, 17, 16, 15, 14, 13]"
proof -
  have "top_cut 10 ''2025-2026'' sample_ledger = take 10 (top_cut 20 ''2025-2026'' sample_ledger)"
    by (rule top_cut_take) simp
  then show ?thesis unfolding sample_cut20 by simp
qed

theorem top_contributors_view_witness:
  "distinct (map uid sample_members)
   \<and> members_exist sample_members sample_ledger
   \<and> map (\<lambda>p. rollup_row (fst p)) (topContributors ''2025-2026'' sample_members sample_ledger)
       = (member_id 0, 600, 2)
         # map (\<lambda>k. (member_id k, of_nat (100 + 10 * k), 1)) [21, 20, 19, 18, 17, 16, 15, 14, 13]
   \<and> map ranked_row (getLeaderboard None sample_date sample_members sample_ledger)
       = (member_id 0, 600, 2)
         # map (\<lambda>k. (member_id k, of_nat (100 + 10 * k), 1))
             [21, 20, 19, 18, 17, 16, 15, 14, 13, 12, 11, 10, 9, 8, 7, 6, 5, 4, 3]
   \<and> map rank (getLeaderboard None sample_date sample_members sample_ledger) = [1 ..< 21]
   \<and> top_view 10 ''2025-2026'' sample_ledger
        (map (\<lambda>p. rollup_row (fst p)) (topContributors ''2025-2026'' sample_members sample_ledger))"
proof -
  note t = top_contributors_view[OF sample_members_distinct, of "''2025-2026''" sample_ledger
      None sample_date, unfolded sample_report_year]
  from t have imp: "members_exist sample_members sample_ledger \<longrightarrow>
            map (\<lambda>p. rollup_row (fst p)) (topContributors ''2025-2026'' sample_members sample_ledger)
              = top_cut 10 ''2025-2026'' sample_ledger
            \<and> map ranked_row (getLeaderboard None sample_date sample_members sample_ledger)
              = top_cut 20 ''2025-2026'' sample_ledger"
    by (elim conjE)
  note both = mp[OF imp sample_members_exist]
  note tc = both[THEN conjunct1] and lb = both[THEN conjunct2]
  from t have rk: "map rank (getLeaderboard None sample_date sample_members sample_ledger)
      = [1 ..< Suc (length (getLeaderboard None sample_date sample_members sample_ledger))]"
    by (elim conjE)
  have "length (map ranked_row (getLeaderboard None sample_date sample_members sample_ledger)) = 20"
    unfolding lb sample_cut20 by simp
  then have len: "length (getLeaderboard None sample_date sample_members sample_ledger) = 20"
    by (simp only: length_map)
  have r: "map rank (getLeaderboard None sample_date sample_members sample_ledger) = [1 ..< 21]"
    unfolding rk len by simp
  from t have v: "top_view 10 ''2025-2026'' sample_ledger (top_cut 10 ''2025-2026'' sample_ledger)"
    by (elim conjE)
  have a: "map (\<lambda>p. rollup_row (fst p)) (topContributors ''2025-2026'' sample_members sample_ledger)
       = (member_id 0, 600, 2)
         # map (\<lambda>k. (member_id k, of_nat (100 + 10 * k), 1)) [21, 20, 19, 18, 17, 16, 15, 14, 13]"
    unfolding tc by (rule sample_cut10)
  have b: "map ranked_row (getLeaderboard None sample_date sample_members sample_ledger)
       = (member_id 0, 600, 2)
         # map (\<lambda>k. (member_id k, of_nat (100 + 10 * k), 1))
             [21, 20, 19, 18, 17, 16, 15, 14, 13, 12, 11, 10, 9, 8, 7, 6, 5, 4, 3]"
    unfolding lb by (rule sample_cut20)
  have c: "top_view 10 ''2025-2026'' sample_ledger
        (map (\<lambda>p. rollup_row (fst p)) (topContributors ''2025-2026'' sample_members sample_ledger))"
    unfolding tc by (rule v)
  from sample_members_distinct sample_members_exist a b r c show ?thesis
    by (intro conjI)
qed

lemma two_cut:
  "top_cut n ''2025-2026'' two_contributors
     = take n [(member_id 3, 300, 1), (''65a1b2c3d4e5f60718293a01'', 200, 1)]"
  unfolding top_cut_def two_contributors_def
  by (simp add: member_rows_def counted_def sample_expense_def
      member_id_def two_digits_def dsum_def dadd_exact)

lemma two_members:
  "member_ref ` set (counted ''2025-2026'' two_contributors)
     = {''65a1b2c3d4e5f60718293a01'', member_id 3}"
  unfolding two_contributors_def
  by (simp add: counted_def sample_expense_def)

theorem top_contributors_counterexample:
  "top_cut 20 ''2025-2026'' two_contributors
     = [(member_id 3, 300, 1), (''65a1b2c3d4e5f60718293a01'', 200, 1)]
   \<and> map ranked_row (getLeaderboard None sample_date [sample_user] two_contributors)
     = [(''65a1b2c3d4e5f60718293a01'', 200, 1)]
   \<and> map rank (getLeaderboard None sample_date [sample_user] two_contributors) = [1]
   \<and> map (\<lambda>p. rollup_row (fst p)) (topContributors ''2025-2026'' [sample_user] two_contributors)
     = [(''65a1b2c3d4e5f60718293a01'', 200, 1)]
   \<and> \<not> top_view 10 ''2025-2026'' two_contributors
        (map (\<lambda>p. rollup_row (fst p)) (topContributors ''2025-2026'' [sample_user] two_contributors))
   \<and> \<not> top_view 20 ''2025-2026'' two_contributors
        (map ranked_row (getLeaderboard None sample_date [sample_user] two_contributors))"
proof -
  have d: "distinct (map uid [sample_user])" by simp
  have u: "uid ` set [sample_user] = {''65a1b2c3d4e5f60718293a01''}"
    by (simp add: sample_user_def)
  have ne: "member_id 3 \<noteq> ''65a1b2c3d4e5f60718293a01''"
    by (simp add: member_id_def two_digits_def)
  have a: "map (\<lambda>p. rollup_row (fst p)) (topContributors ''2025-2026'' [sample_user] two_contributors)
     = [(''65a1b2c3d4e5f60718293a01'', 200, 1)]"
    unfolding topContributors_rows[OF d] u two_cut using ne by simp
  have b: "map ranked_row (getLeaderboard None sample_date [sample_user] two_contributors)
     = [(''65a1b2c3d4e5f60718293a01'', 200, 1)]"
    unfolding leaderboard_rows[OF d] sample_report_year u two_cut using ne by simp
  have "length (map ranked_row (getLeaderboard None sample_date [sample_user] two_contributors)) = 1"
    unfolding b by simp
  then have len: "length (getLeaderboard None sample_date [sample_user] two_contributors) = 1"
    by (simp only: length_map)
  have r: "map rank (getLeaderboard None sample_date [sample_user] two_contributors) = [1]"
    unfolding getLeaderboard_def add_rank_rank
    using len unfolding getLeaderboard_def by simp
  have k: "card (member_ref ` set (counted ''2025-2026'' two_contributors)) = 2"
    unfolding two_members using ne by simp
  have n10: "\<not> top_view 10 ''2025-2026'' two_contributors [(''65a1b2c3d4e5f60718293a01'', 200, 1)]"
    unfolding top_view_def k by simp
  have n20: "\<not> top_view 20 ''2025-2026'' two_contributors [(''65a1b2c3d4e5f60718293a01'', 200, 1)]"
    unfolding top_view_def k by simp
  have c: "top_cut 20 ''2025-2026'' two_contributors
     = [(member_id 3, 300, 1), (''65a1b2c3d4e5f60718293a01'', 200, 1)]"
    unfolding two_cut by simp
  show ?thesis unfolding a b using c r n10 n20 by simp
qed

end
